theory Spec2Isabelle
  imports Complex_Main "HOL-Library.Multiset" "HOL-Library.Product_Lexorder"
begin

text \<open>
  A shallow embedding of the pure core of FinancialTool: the period calendar
  (\<open>dateUtils\<close>: \<open>getPeriodInfo\<close>) and the calculations (\<open>calculations.ts\<close>:
  \<open>calculateFinancialSummary\<close>, \<open>calculateBudgetPerformance\<close>,
  \<open>calculateSpendingTrends\<close>, \<open>generateSpendingInsights\<close>), with the properties of the
  specification proved or refuted about them.
\<close>

section \<open>Numbers and dates\<close>

text \<open>
  A JavaScript \<open>number\<close> is modelled as an exact rational: sums, differences and quotients
  are exact, and the infinities and the rounding of IEEE doubles are outside the model.  The
  two fields of a category share, which can receive a string or \<open>NaN\<close> from the totals
  object, hold a \<open>JSValue\<close> (section on JavaScript values).

  A \<open>Date\<close> is modelled by its civil fields in one fixed time zone:
  (year, month index 0..11, day of the month, millisecond of the day).  Dates are compared as
  JavaScript compares them, by the instant they denote; on civil fields of one zone with a fixed
  offset that is the lexicographic order of the four fields.
\<close>

type_synonym Date = "int \<times> int \<times> int \<times> int"

record DateRange =
  start :: Date
  end' :: Date

record PeriodInfo =
  current :: DateRange
  previous :: DateRange

datatype Period = Month | Quarter | Year

definition getFullYear :: "Date \<Rightarrow> int" where
  "getFullYear d = fst d"

definition getMonth :: "Date \<Rightarrow> int" where
  "getMonth d = fst (snd d)"

definition getDate :: "Date \<Rightarrow> int" where
  "getDate d = fst (snd (snd d))"

definition getTimeOfDay :: "Date \<Rightarrow> int" where
  "getTimeOfDay d = snd (snd (snd d))"

definition isLeapYear :: "int \<Rightarrow> bool" where
  "isLeapYear y = (y mod 4 = 0 \<and> (y mod 100 \<noteq> 0 \<or> y mod 400 = 0))"

definition daysInMonth :: "int \<Rightarrow> int \<Rightarrow> int" where
  "daysInMonth y m =
     (if m = 1 then (if isLeapYear y then 29 else 28)
      else if m = 3 \<or> m = 5 \<or> m = 8 \<or> m = 10 then 30 else 31)"

text \<open>A reading of the wall clock: a civil date and time that exists.\<close>

definition validDate :: "Date \<Rightarrow> bool" where
  "validDate d =
     (0 \<le> getMonth d \<and> getMonth d < 12 \<and>
      1 \<le> getDate d \<and> getDate d \<le> daysInMonth (getFullYear d) (getMonth d) \<and>
      0 \<le> getTimeOfDay d \<and> getTimeOfDay d < 86400000)"

text \<open>
  \<open>new Date(year, monthIndex, day)\<close> of JavaScript, for a month index and a day in range:
  local midnight of that day, where a year from 0 to 99 stands for 1900 + year.
\<close>

definition newDate :: "int \<Rightarrow> int \<Rightarrow> int \<Rightarrow> Date" where
  "newDate y m d = ((if 0 \<le> y \<and> y \<le> 99 then 1900 + y else y), m, d, 0)"

subsection \<open>The date-fns helpers\<close>

text \<open>
  \<open>getPeriodInfo\<close> builds its ranges with functions of the library date-fns, which is not
  part of the sources.  They are modelled from what the spec (4.1) says they deliver.  The
  first instant of a day is millisecond 0, the last one millisecond 86399999 (23:59:59.999).
\<close>

text \<open>
  Modelled from the spec: \<open>startOfMonth\<close> of date-fns is missing; it is the first instant of
  the calendar month containing the date.
\<close>

definition startOfMonth :: "Date \<Rightarrow> Date" where
  "startOfMonth d = (getFullYear d, getMonth d, 1, 0)"

text \<open>
  Modelled from the spec: \<open>endOfMonth\<close> of date-fns is missing; it is the last instant of
  the calendar month containing the date.
\<close>

definition endOfMonth :: "Date \<Rightarrow> Date" where
  "endOfMonth d =
     (getFullYear d, getMonth d, daysInMonth (getFullYear d) (getMonth d), 86399999)"

text \<open>
  Modelled from the spec: \<open>startOfQuarter\<close> of date-fns is missing; it is the first instant
  of the three-month quarter containing the date (quarters start in January, April, July and
  October).
\<close>

definition startOfQuarter :: "Date \<Rightarrow> Date" where
  "startOfQuarter d = (getFullYear d, getMonth d - getMonth d mod 3, 1, 0)"

text \<open>
  Modelled from the spec: \<open>endOfQuarter\<close> of date-fns is missing; it is the last instant of
  the three-month quarter containing the date.
\<close>

definition endOfQuarter :: "Date \<Rightarrow> Date" where
  "endOfQuarter d =
     (let m = getMonth d - getMonth d mod 3 + 2
      in (getFullYear d, m, daysInMonth (getFullYear d) m, 86399999))"

text \<open>
  Modelled from the spec: \<open>startOfYear\<close> of date-fns is missing; it is the first instant of
  the calendar year containing the date.
\<close>

definition startOfYear :: "Date \<Rightarrow> Date" where
  "startOfYear d = (getFullYear d, 0, 1, 0)"

text \<open>
  Modelled from the spec: \<open>endOfYear\<close> of date-fns is missing; it is the last instant of the
  calendar year containing the date.
\<close>

definition endOfYear :: "Date \<Rightarrow> Date" where
  "endOfYear d = (getFullYear d, 11, 31, 86399999)"

text \<open>
  Modelled from the spec: \<open>subMonths\<close> of date-fns is missing; it goes back \<open>n\<close> calendar
  months, across year boundaries.  It keeps the day of the month where the target month has
  it and takes the last day of the target month otherwise, and it keeps the time of day.
\<close>

definition subMonths :: "Date \<Rightarrow> int \<Rightarrow> Date" where
  "subMonths d n =
     (let k = getFullYear d * 12 + getMonth d - n;
          y = k div 12;
          m = k mod 12
      in (y, m, min (getDate d) (daysInMonth y m), getTimeOfDay d))"

text \<open>The months of a date counted from year 0, for comparing dates by their month.\<close>

definition monthNumber :: "Date \<Rightarrow> int" where
  "monthNumber d = 12 * getFullYear d + getMonth d"

subsection \<open>dateUtils: the period calendar\<close>

text \<open>
  Every \<open>new Date()\<close> of the source reads the wall clock; a reading is a parameter of the
  model.  \<open>getPeriodInfo\<close> reads the clock itself (\<open>now\<close>) and calls \<open>getCurrentMonth\<close>,
  \<open>getCurrentQuarter\<close> or \<open>getCurrentYear\<close>, which read it again (\<open>now'\<close>).  The
  \<open>label\<close> of a \<open>PeriodInfo\<close>, a display string, is not modelled.
\<close>

definition getCurrentMonth :: "Date \<Rightarrow> DateRange" where
  "getCurrentMonth now = \<lparr>start = startOfMonth now, end' = endOfMonth now\<rparr>"

definition getCurrentQuarter :: "Date \<Rightarrow> DateRange" where
  "getCurrentQuarter now = \<lparr>start = startOfQuarter now, end' = endOfQuarter now\<rparr>"

definition getCurrentYear :: "Date \<Rightarrow> DateRange" where
  "getCurrentYear now = \<lparr>start = startOfYear now, end' = endOfYear now\<rparr>"

fun getPeriodInfo :: "Date \<Rightarrow> Date \<Rightarrow> Period \<Rightarrow> PeriodInfo" where
  "getPeriodInfo now now' Month =
     (let current = getCurrentMonth now';
          previousMonth = subMonths now 1
      in \<lparr>current = current,
          previous = \<lparr>start = startOfMonth previousMonth, end' = endOfMonth previousMonth\<rparr>\<rparr>)"
| "getPeriodInfo now now' Quarter =
     (let current = getCurrentQuarter now';
          previousQuarter = subMonths now 3
      in \<lparr>current = current,
          previous = \<lparr>start = startOfQuarter previousQuarter,
                      end' = endOfQuarter previousQuarter\<rparr>\<rparr>)"
| "getPeriodInfo now now' Year =
     (let current = getCurrentYear now';
          previousYear = newDate (getFullYear now - 1) 0 1
      in \<lparr>current = current,
          previous = \<lparr>start = startOfYear previousYear, end' = endOfYear previousYear\<rparr>\<rparr>)"

section \<open>JavaScript values\<close>

text \<open>
  The values that a property of the totals object \<open>categoryTotals\<close> and a field computed
  from it can hold:
  \<^item> \<open>Number a\<close>, a number;
  \<^item> \<open>NaN\<close>;
  \<^item> \<open>Text k xs\<close>, the string that \<open>Object.prototype[k] + a1 + ... + an\<close> gives for
    \<open>xs = [a1, ..., an]\<close>: the text of what every object inherits under the name
    \<open>k\<close>, followed by the decimal forms of the numbers.  The text of a built-in function
    starts with \<open>function\<close> and that of the prototype object is \<open>[object Object]\<close>, so such
    a string is never empty and never denotes a number.
\<close>

datatype JSValue = Number rat | NaN | Text string "rat list"

text \<open>\<open>ToBoolean\<close>: 0, \<open>NaN\<close> and the empty string are falsy.\<close>

fun truthy :: "JSValue \<Rightarrow> bool" where
  "truthy (Number a) = (a \<noteq> 0)"
| "truthy NaN = False"
| "truthy (Text k xs) = True"

text \<open>\<open>v + a\<close> for a number \<open>a\<close>: addition of numbers, concatenation after a string.\<close>

fun jsPlus :: "JSValue \<Rightarrow> rat \<Rightarrow> JSValue" where
  "jsPlus (Number x) a = Number (x + a)"
| "jsPlus NaN a = NaN"
| "jsPlus (Text k xs) a = Text k (xs @ [a])"

text \<open>\<open>v - w\<close>: both operands are converted to numbers, a string of the kind above to \<open>NaN\<close>.\<close>

fun jsMinus :: "JSValue \<Rightarrow> JSValue \<Rightarrow> JSValue" where
  "jsMinus (Number x) (Number y) = Number (x - y)"
| "jsMinus v w = NaN"

text \<open>
  \<open>v / d\<close> and \<open>v * c\<close> for numbers \<open>d\<close> and \<open>c\<close>; the source divides only where
  \<open>d > 0\<close>.
\<close>

fun jsDivide :: "JSValue \<Rightarrow> rat \<Rightarrow> JSValue" where
  "jsDivide (Number x) d = Number (x / d)"
| "jsDivide v d = NaN"

fun jsTimes :: "JSValue \<Rightarrow> rat \<Rightarrow> JSValue" where
  "jsTimes (Number x) c = Number (x * c)"
| "jsTimes v c = NaN"

text \<open>\<open>v > c\<close> for a number \<open>c\<close>: false when \<open>v\<close> converts to \<open>NaN\<close>.\<close>

fun jsGreater :: "JSValue \<Rightarrow> rat \<Rightarrow> bool" where
  "jsGreater (Number x) c = (x > c)"
| "jsGreater v c = False"

section \<open>calculations: the data model\<close>

datatype TransactionType = Income | Expense

text \<open>
  The \<open>date\<close> of a transaction is a string in the source and is only ever used as
  \<open>new Date(t.date)\<close>; the model holds that date.
\<close>

record Transaction =
  id' :: string
  amount :: rat
  type :: TransactionType
  date :: Date
  category :: string
  description :: string

record BudgetData =
  category :: string
  budgetAmount :: rat
  spentAmount :: rat
  period :: Period

datatype Status = Under | Over | OnTrack

text \<open>The result type \<open>BudgetData & { status; percentUsed }\<close>.\<close>

record BudgetPerformance = BudgetData +
  status :: Status
  percentUsed :: rat

text \<open>
  The entries of \<open>topCategories\<close>.  The interface declares \<open>amount\<close> and \<open>percentage\<close>
  as numbers; at run time \<open>amount\<close> is whatever the totals object holds for the category,
  a number or a string, and \<open>percentage\<close> is a number or \<open>NaN\<close>.
\<close>

record CategoryShare =
  category :: string
  amount :: JSValue
  percentage :: JSValue

record FinancialSummary =
  totalIncome :: rat
  totalExpenses :: rat
  netSavings :: rat
  savingsRate :: rat
  topCategories :: "CategoryShare list"

datatype Trending = Up | Down | Stable

record SpendingTrends =
  current :: rat
  previous :: rat
  changePercent :: rat
  trending :: Trending

section \<open>JavaScript objects and arrays\<close>

text \<open>
  \<open>categoryTotals\<close> is a plain object used as a dictionary (\<open>Record<string, number>\<close>).  An
  object is modelled by the list of its own properties in the order of their creation; what
  it inherits from \<open>Object.prototype\<close> is the same for every object: eleven built-in
  functions, and the accessor \<open>__proto__\<close>.
\<close>

type_synonym 'v JSObject = "(string \<times> 'v) list"

definition inheritedFunctions :: "string list" where
  "inheritedFunctions =
     [''constructor'', ''hasOwnProperty'', ''isPrototypeOf'', ''propertyIsEnumerable'',
      ''toLocaleString'', ''toString'', ''valueOf'', ''__defineGetter__'', ''__defineSetter__'',
      ''__lookupGetter__'', ''__lookupSetter__'']"

text \<open>
  What \<open>obj[k]\<close> evaluates to: the own property if there is one, else what the prototype
  provides under \<open>k\<close>, else \<open>undefined\<close>.
\<close>

datatype 'v Found = Own 'v | InheritedFunction | PrototypeObject | Missing

definition getProp :: "'v JSObject \<Rightarrow> string \<Rightarrow> 'v Found" where
  "getProp obj k =
     (case map_of obj k of
        Some v \<Rightarrow> Own v
      | None \<Rightarrow>
          if k = ''__proto__'' then PrototypeObject
          else if k \<in> set inheritedFunctions then InheritedFunction
          else Missing)"

text \<open>
  Defining an own property, as an object literal and a spread do: an existing property keeps
  its place, a new one is appended.
\<close>

fun defineProp :: "'v JSObject \<Rightarrow> string \<Rightarrow> 'v \<Rightarrow> 'v JSObject" where
  "defineProp [] k v = [(k, v)]"
| "defineProp ((k', v') # obj) k v =
     (if k' = k then (k', v) # obj else (k', v') # defineProp obj k v)"

text \<open>
  The assignment \<open>obj[k] = v\<close> of a number or a string \<open>v\<close>.  Under the name \<open>__proto__\<close>
  it reaches the setter of the prototype, which ignores a value that is not an object: no
  property is created.  Under every other name it defines an own property (the inherited
  functions are writable data properties, so an assignment shadows them).
\<close>

definition setProp :: "'v JSObject \<Rightarrow> string \<Rightarrow> 'v \<Rightarrow> 'v JSObject" where
  "setProp obj k v = (if k = ''__proto__'' then obj else defineProp obj k v)"

text \<open>
  \<open>Object.entries\<close> lists the own properties in the order of the language: first the keys
  that are array indices (the canonical decimal numerals of 0 .. 2^32 - 2) in ascending numeric
  order, then all other string keys in the order of their creation.
\<close>

definition isDigit :: "char \<Rightarrow> bool" where
  "isDigit c = (c \<in> set ''0123456789'')"

definition digitValue :: "char \<Rightarrow> nat" where
  "digitValue c = of_char c - 48"

definition numericValue :: "string \<Rightarrow> nat" where
  "numericValue s = foldl (\<lambda>n c. 10 * n + digitValue c) 0 s"

definition isArrayIndex :: "string \<Rightarrow> bool" where
  "isArrayIndex s =
     (case s of
        [] \<Rightarrow> False
      | c # cs \<Rightarrow> list_all isDigit s \<and> (c \<noteq> CHR ''0'' \<or> cs = []) \<and>
                 numericValue s < 2 ^ 32 - 1)"

definition objectEntries :: "'v JSObject \<Rightarrow> (string \<times> 'v) list" where
  "objectEntries obj =
     sort_key (\<lambda>e. numericValue (fst e)) (filter (\<lambda>e. isArrayIndex (fst e)) obj) @
     filter (\<lambda>e. \<not> isArrayIndex (fst e)) obj"

text \<open>
  \<open>Array.prototype.sort\<close> with a comparator is a stable sort: \<open>a\<close> stays before \<open>b\<close>
  unless the comparator gives a number greater than 0 for \<open>(a, b)\<close>; a result that is not
  a number counts as 0 (\<open>SortCompare\<close>).  With a consistent comparator the result does not
  depend on the algorithm; the model inserts from the right.  Where the comparator gives
  \<open>NaN\<close> for some pairs only, the language leaves the order to the implementation, and the
  model shows one possible order.
\<close>

fun sortCompare :: "JSValue \<Rightarrow> rat" where
  "sortCompare (Number v) = v"
| "sortCompare w = 0"

fun insertBy :: "('a \<Rightarrow> 'a \<Rightarrow> JSValue) \<Rightarrow> 'a \<Rightarrow> 'a list \<Rightarrow> 'a list" where
  "insertBy cmp x [] = [x]"
| "insertBy cmp x (y # ys) =
     (if sortCompare (cmp x y) \<le> 0 then x # y # ys else y # insertBy cmp x ys)"

definition sortBy :: "('a \<Rightarrow> 'a \<Rightarrow> JSValue) \<Rightarrow> 'a list \<Rightarrow> 'a list" where
  "sortBy cmp xs = foldr (insertBy cmp) xs []"

section \<open>calculations: the operations\<close>

text \<open>\<open>reduce((sum, t) => sum + t.amount, 0)\<close>\<close>

definition sumAmounts :: "Transaction list \<Rightarrow> rat" where
  "sumAmounts ts = foldl (\<lambda>sum t. sum + Transaction.amount t) 0 ts"

text \<open>\<open>acc[transaction.category] = (acc[transaction.category] || 0) + transaction.amount\<close>\<close>

text \<open>
  The value of \<open>(found || 0) + a\<close>, where \<open>found\<close> is what \<open>acc[k]\<close> evaluated to.  An
  inherited function and the prototype object are truthy and are converted to their text by
  \<open>+\<close>.
\<close>

definition orZeroPlus :: "string \<Rightarrow> JSValue Found \<Rightarrow> rat \<Rightarrow> JSValue" where
  "orZeroPlus k found a =
     (case found of
        Own v \<Rightarrow> if truthy v then jsPlus v a else Number (0 + a)
      | InheritedFunction \<Rightarrow> Text k [a]
      | PrototypeObject \<Rightarrow> Text k [a]
      | Missing \<Rightarrow> Number (0 + a))"

definition addToCategory :: "JSValue JSObject \<Rightarrow> Transaction \<Rightarrow> JSValue JSObject" where
  "addToCategory acc transaction =
     setProp acc (Transaction.category transaction)
       (orZeroPlus (Transaction.category transaction)
          (getProp acc (Transaction.category transaction)) (Transaction.amount transaction))"

definition calculateFinancialSummary :: "Transaction list \<Rightarrow> DateRange \<Rightarrow> FinancialSummary" where
  "calculateFinancialSummary transactions periodRange =
     (let periodTransactions =
            filter (\<lambda>transaction. start periodRange \<le> date transaction \<and>
                                  date transaction \<le> end' periodRange) transactions;
          totalIncome = sumAmounts (filter (\<lambda>t. type t = Income) periodTransactions);
          totalExpenses = sumAmounts (filter (\<lambda>t. type t = Expense) periodTransactions);
          netSavings = totalIncome - totalExpenses;
          savingsRate = (if totalIncome > 0 then (netSavings / totalIncome) * 100 else 0);
          categoryTotals =
            foldl addToCategory [] (filter (\<lambda>t. type t = Expense) periodTransactions);
          topCategories =
            take 5
              (sortBy (\<lambda>a b. jsMinus (CategoryShare.amount b) (CategoryShare.amount a))
                 (map (\<lambda>(category, amount).
                         \<lparr>category = category, amount = amount,
                          percentage =
                            (if totalExpenses > 0
                             then jsTimes (jsDivide amount totalExpenses) 100
                             else Number 0)\<rparr>)
                    (objectEntries categoryTotals)))
      in \<lparr>totalIncome = totalIncome, totalExpenses = totalExpenses, netSavings = netSavings,
          savingsRate = savingsRate, topCategories = topCategories\<rparr>)"

text \<open>
  The callback of \<open>budgets.map\<close> in \<open>calculateBudgetPerformance\<close>, by value: the
  budget is a record with the four fields of \<open>BudgetData\<close>, the result a new record.  The
  section on the store models the same function on references.
\<close>

definition budgetResult :: "Transaction list \<Rightarrow> PeriodInfo \<Rightarrow> BudgetData \<Rightarrow> BudgetPerformance" where
  "budgetResult transactions periodInfo budget =
     (let categoryTransactions =
            filter (\<lambda>t. Transaction.category t = BudgetData.category budget \<and>
                        type t = Expense \<and>
                        start (PeriodInfo.current periodInfo) \<le> date t \<and>
                        date t \<le> end' (PeriodInfo.current periodInfo)) transactions;
          spentAmount = sumAmounts categoryTransactions;
          percentUsed =
            (if budgetAmount budget > 0 then (spentAmount / budgetAmount budget) * 100 else 0);
          status = (if percentUsed > 100 then Over else if percentUsed > 80 then OnTrack else Under)
      in \<lparr>BudgetData.category = BudgetData.category budget, budgetAmount = budgetAmount budget,
          spentAmount = spentAmount, period = period budget,
          status = status, percentUsed = percentUsed\<rparr>)"

definition calculateBudgetPerformance ::
    "Date \<Rightarrow> Date \<Rightarrow> Transaction list \<Rightarrow> BudgetData list \<Rightarrow> Period \<Rightarrow> BudgetPerformance list" where
  "calculateBudgetPerformance now now' transactions budgets period' =
     (let periodInfo = getPeriodInfo now now' period'
      in map (budgetResult transactions periodInfo) budgets)"

definition calculateSpendingTrends ::
    "Date \<Rightarrow> Date \<Rightarrow> Transaction list \<Rightarrow> Period \<Rightarrow> SpendingTrends" where
  "calculateSpendingTrends now now' transactions period' =
     (let periodInfo = getPeriodInfo now now' period';
          currentSpending =
            sumAmounts
              (filter (\<lambda>t. type t = Expense \<and>
                           start (PeriodInfo.current periodInfo) \<le> date t \<and>
                           date t \<le> end' (PeriodInfo.current periodInfo)) transactions);
          previousSpending =
            sumAmounts
              (filter (\<lambda>t. type t = Expense \<and>
                           start (PeriodInfo.previous periodInfo) \<le> date t \<and>
                           date t \<le> end' (PeriodInfo.previous periodInfo)) transactions);
          changePercent =
            (if previousSpending > 0
             then ((currentSpending - previousSpending) / previousSpending) * 100
             else 0);
          trending =
            (if \<bar>changePercent\<bar> > 5 then (if changePercent > 0 then Up else Down) else Stable)
      in \<lparr>current = currentSpending, previous = previousSpending,
          changePercent = changePercent, trending = trending\<rparr>)"

text \<open>
  The insight strings are fixed templates; each constructor stands for one template of the
  source and carries the values the template interpolates:
  \<^item> \<open>LowSavingsRate\<close>: "Your savings rate is below 10%. ..."
  \<^item> \<open>ExcellentSavingsRate\<close>: "Excellent savings rate! ..."
  \<^item> \<open>OverBudget n cs\<close>: "You're over budget in n category(s): cs joined by ', '."
  \<^item> \<open>SpendingIncreased p\<close>: "Your spending increased by p.toFixed(1)% ..."
  \<^item> \<open>SpendingReduced p\<close>: "Great job! You reduced spending by p.toFixed(1)% ..."
  \<^item> \<open>TopCategory c p\<close>: "c accounts for p.toFixed(1)% of your spending. ..."
\<close>

datatype Insight =
    LowSavingsRate
  | ExcellentSavingsRate
  | OverBudget nat "string list"
  | SpendingIncreased rat
  | SpendingReduced rat
  | TopCategory string JSValue

definition generateSpendingInsights ::
    "FinancialSummary \<Rightarrow> BudgetPerformance list \<Rightarrow> SpendingTrends \<Rightarrow> Insight list" where
  "generateSpendingInsights summary budgetPerformance trends =
     (let insights = [];
          insights =
            (if savingsRate summary < 10 then insights @ [LowSavingsRate]
             else if savingsRate summary > 20 then insights @ [ExcellentSavingsRate]
             else insights);
          overBudgetCategories = filter (\<lambda>b. status b = Over) budgetPerformance;
          insights =
            (if length overBudgetCategories > 0
             then insights @ [OverBudget (length overBudgetCategories)
                                (map BudgetData.category overBudgetCategories)]
             else insights);
          insights =
            (if trending trends = Up \<and> changePercent trends > 15
             then insights @ [SpendingIncreased (changePercent trends)]
             else if trending trends = Down \<and> changePercent trends < - 10
             then insights @ [SpendingReduced \<bar>changePercent trends\<bar>]
             else insights);
          insights =
            (case topCategories summary of
               [] \<Rightarrow> insights
             | topCategory # _ \<Rightarrow>
                 if jsGreater (percentage topCategory) 30
                 then insights @ [TopCategory (CategoryShare.category topCategory)
                                    (percentage topCategory)]
                 else insights)
      in insights)"

section \<open>\<open>calculateBudgetPerformance\<close> on a store\<close>

text \<open>
  \<open>calculateBudgetPerformance\<close> receives references: its two arrays and the objects in
  them live in the heap, and \<open>filter\<close>, \<open>map\<close> and the object literal of the callback
  allocate.  To state what the call does to its arguments, the function is modelled a second
  time with the heap explicit.  A store is the list of the cells allocated so far, an
  address is an index into it, and an allocation appends a cell.

  A budget is an object with whatever own properties it has: the type \<open>BudgetData\<close> names
  four of them, and an object with more, such as a result of an earlier call with its
  \<open>status\<close> and \<open>percentUsed\<close>, has that type too.  The value of a property is a number, a
  string, or something else.  Objects are plain: no accessor properties, and a property that
  is not an own property is \<open>undefined\<close> (\<open>Object.prototype\<close> has no \<open>category\<close> and no
  \<open>budgetAmount\<close>).
\<close>

type_synonym addr = nat

datatype Value = NumberValue rat | StringValue string | OtherValue nat

datatype Cell = TransactionCell Transaction | ObjectCell "Value JSObject" | ArrayCell "addr list"

type_synonym Store = "Cell list"

definition cellAt :: "Store \<Rightarrow> addr \<Rightarrow> Cell option" where
  "cellAt h a = (if a < length h then Some (h ! a) else None)"

definition allocate :: "Store \<Rightarrow> Cell \<Rightarrow> Store \<times> addr" where
  "allocate h c = (h @ [c], length h)"

definition readArray :: "Store \<Rightarrow> addr \<Rightarrow> addr list option" where
  "readArray h a = (case cellAt h a of Some (ArrayCell xs) \<Rightarrow> Some xs | _ \<Rightarrow> None)"

definition readTransaction :: "Store \<Rightarrow> addr \<Rightarrow> Transaction option" where
  "readTransaction h a = (case cellAt h a of Some (TransactionCell t) \<Rightarrow> Some t | _ \<Rightarrow> None)"

definition readObject :: "Store \<Rightarrow> addr \<Rightarrow> Value JSObject option" where
  "readObject h a = (case cellAt h a of Some (ObjectCell props) \<Rightarrow> Some props | _ \<Rightarrow> None)"

text \<open>The elements of an array of transactions, each with its address.\<close>

definition readTransactions :: "Store \<Rightarrow> addr \<Rightarrow> (addr \<times> Transaction) list option" where
  "readTransactions h a =
     (case readArray h a of
        None \<Rightarrow> None
      | Some xs \<Rightarrow> map_option (zip xs) (those (map (readTransaction h) xs)))"

text \<open>
  \<open>array.filter(pred)\<close> allocates a new array that holds the references of the elements
  kept.  The predicates of the source read their element and write nothing.
\<close>

definition arrayFilter :: "Store \<Rightarrow> addr \<Rightarrow> (Transaction \<Rightarrow> bool) \<Rightarrow> (Store \<times> addr) option" where
  "arrayFilter h a pred =
     (case readTransactions h a of
        None \<Rightarrow> None
      | Some xts \<Rightarrow> Some (allocate h (ArrayCell (map fst (filter (\<lambda>(x, t). pred t) xts)))))"

text \<open>\<open>array.reduce((sum, t) => sum + t.amount, 0)\<close>\<close>

definition arraySum :: "Store \<Rightarrow> addr \<Rightarrow> rat option" where
  "arraySum h a = map_option (\<lambda>xts. sumAmounts (map snd xts)) (readTransactions h a)"

text \<open>
  \<open>array.map(f)\<close>: the callback runs on the elements from left to right, each run in the
  store the previous one left, and the results go into a new array.
\<close>

fun mapElements ::
    "(Store \<Rightarrow> addr \<Rightarrow> (Store \<times> addr) option) \<Rightarrow> Store \<Rightarrow> addr list \<Rightarrow> (Store \<times> addr list) option" where
  "mapElements f h [] = Some (h, [])"
| "mapElements f h (x # xs) =
     (case f h x of
        None \<Rightarrow> None
      | Some (h1, y) \<Rightarrow>
          (case mapElements f h1 xs of
             None \<Rightarrow> None
           | Some (h2, ys) \<Rightarrow> Some (h2, y # ys)))"

definition arrayMap ::
    "(Store \<Rightarrow> addr \<Rightarrow> (Store \<times> addr) option) \<Rightarrow> Store \<Rightarrow> addr \<Rightarrow> (Store \<times> addr) option" where
  "arrayMap f h a =
     (case readArray h a of
        None \<Rightarrow> None
      | Some xs \<Rightarrow>
          (case mapElements f h xs of
             None \<Rightarrow> None
           | Some (h1, ys) \<Rightarrow> Some (allocate h1 (ArrayCell ys))))"

text \<open>The three strings of the type of \<open>status\<close>.\<close>

fun statusName :: "Status \<Rightarrow> string" where
  "statusName Under = ''under''"
| "statusName Over = ''over''"
| "statusName OnTrack = ''ontrack''"

text \<open>
  The operand \<open>budget.budgetAmount\<close> of the comparison and of the division: a number, or
  \<open>undefined\<close> where the object has no such property (\<open>Some None\<close>; \<open>undefined > 0\<close> is
  false).  The conversion of any other value to a number is outside the model (\<open>None\<close>).
\<close>

definition numberOrUndefined :: "Value option \<Rightarrow> rat option option" where
  "numberOrUndefined v =
     (case v of
        None \<Rightarrow> Some None
      | Some (NumberValue b) \<Rightarrow> Some (Some b)
      | Some (StringValue s) \<Rightarrow> None
      | Some (OtherValue x) \<Rightarrow> None)"

text \<open>
  The object literal \<open>{ ...budget, k1: v1, ..., kn: vn }\<close>: the spread copies the own
  properties of \<open>budget\<close> in the order of \<open>Object.entries\<close>, then each \<open>ki: vi\<close> defines a
  property, which replaces the value of a copied property of the same name.
\<close>

definition spreadAndSet :: "Value JSObject \<Rightarrow> (string \<times> Value) list \<Rightarrow> Value JSObject" where
  "spreadAndSet props kvs = foldl (\<lambda>obj (k, v). defineProp obj k v) (objectEntries props) kvs"

text \<open>
  The callback of \<open>budgets.map\<close>, run in the store \<open>h\<close> on the reference \<open>budget\<close>; it
  returns the store it leaves and the reference of its result.
\<close>

definition budgetCallback :: "PeriodInfo \<Rightarrow> addr \<Rightarrow> Store \<Rightarrow> addr \<Rightarrow> (Store \<times> addr) option" where
  "budgetCallback periodInfo transactions h budget =
     (case readObject h budget of
        None \<Rightarrow> None
      | Some props \<Rightarrow>
     (case arrayFilter h transactions
             (\<lambda>t. Some (StringValue (Transaction.category t)) = map_of props ''category'' \<and>
                  type t = Expense \<and>
                  start (PeriodInfo.current periodInfo) \<le> date t \<and>
                  date t \<le> end' (PeriodInfo.current periodInfo)) of
        None \<Rightarrow> None
      | Some (h1, categoryTransactions) \<Rightarrow>
     (case arraySum h1 categoryTransactions of
        None \<Rightarrow> None
      | Some spent \<Rightarrow>
     (case numberOrUndefined (map_of props ''budgetAmount'') of
        None \<Rightarrow> None
      | Some limit \<Rightarrow>
          (let spentAmount = spent;
               percentUsed =
                 (case limit of
                    Some b \<Rightarrow> if b > 0 then (spentAmount / b) * 100 else 0
                  | None \<Rightarrow> 0);
               status =
                 (if percentUsed > 100 then Over else if percentUsed > 80 then OnTrack else Under)
           in Some (allocate h1
                (ObjectCell (spreadAndSet props
                   [(''spentAmount'', NumberValue spentAmount),
                    (''status'', StringValue (statusName status)),
                    (''percentUsed'', NumberValue percentUsed)]))))))))"

definition calculateBudgetPerformanceInStore ::
    "Date \<Rightarrow> Date \<Rightarrow> Store \<Rightarrow> addr \<Rightarrow> addr \<Rightarrow> Period \<Rightarrow> (Store \<times> addr) option" where
  "calculateBudgetPerformanceInStore now now' h transactions budgets period' =
     (let periodInfo = getPeriodInfo now now' period'
      in arrayMap (budgetCallback periodInfo transactions) h budgets)"

text \<open>
  The arguments the model covers: \<open>transactions\<close> refers to an array of transactions and
  \<open>budgets\<close> to an array of objects, each with its properties under distinct names and with
  a \<open>budgetAmount\<close> that is a number or absent.
\<close>

definition wellFormed :: "Store \<Rightarrow> addr \<Rightarrow> addr \<Rightarrow> bool" where
  "wellFormed h transactions budgets =
     (case (readArray h transactions, readArray h budgets) of
        (Some ts, Some bs) \<Rightarrow>
          list_all (\<lambda>a. readTransaction h a \<noteq> None) ts \<and>
          list_all (\<lambda>b. case readObject h b of
                          None \<Rightarrow> False
                        | Some props \<Rightarrow>
                            distinct (map fst props) \<and>
                            numberOrUndefined (map_of props ''budgetAmount'') \<noteq> None) bs
      | _ \<Rightarrow> False)"

text \<open>A store that only grew: every cell of \<open>h\<close> is in \<open>h'\<close> at its address, unchanged.\<close>

definition extends :: "Store \<Rightarrow> Store \<Rightarrow> bool" where
  "extends h h' = (take (length h) h' = h)"

text \<open>
  The object at \<open>y\<close> in the store \<open>h'\<close> is a result for the budget at \<open>b\<close> in the store
  \<open>h\<close>: it is a new object, it has every property of the budget under every name but
  \<open>spentAmount\<close>, \<open>status\<close> and \<open>percentUsed\<close> with the value the budget has, and under
  these three names a number, one of the three status strings, and a number.
\<close>

definition spreadOf :: "Store \<Rightarrow> Store \<Rightarrow> addr \<Rightarrow> addr \<Rightarrow> bool" where
  "spreadOf h h' b y =
     (length h \<le> y \<and>
      (\<exists>props ps s st u.
         readObject h b = Some props \<and> readObject h' y = Some ps \<and>
         (\<forall>k. k \<notin> {''spentAmount'', ''status'', ''percentUsed''} \<longrightarrow> map_of ps k = map_of props k) \<and>
         map_of ps ''spentAmount'' = Some (NumberValue s) \<and>
         map_of ps ''status'' = Some (StringValue (statusName st)) \<and>
         map_of ps ''percentUsed'' = Some (NumberValue u)))"

text \<open>
  The typed budget of the first model as an object, and its result as an object: the four
  properties of \<open>BudgetData\<close> in the order of the interface, then \<open>status\<close> and
  \<open>percentUsed\<close>.
\<close>

fun periodName :: "Period \<Rightarrow> string" where
  "periodName Month = ''month''"
| "periodName Quarter = ''quarter''"
| "periodName Year = ''year''"

definition budgetObject :: "BudgetData \<Rightarrow> Value JSObject" where
  "budgetObject b =
     [(''category'', StringValue (BudgetData.category b)),
      (''budgetAmount'', NumberValue (budgetAmount b)),
      (''spentAmount'', NumberValue (spentAmount b)),
      (''period'', StringValue (periodName (period b)))]"

definition performanceObject :: "BudgetPerformance \<Rightarrow> Value JSObject" where
  "performanceObject p =
     [(''category'', StringValue (BudgetData.category p)),
      (''budgetAmount'', NumberValue (budgetAmount p)),
      (''spentAmount'', NumberValue (spentAmount p)),
      (''period'', StringValue (periodName (period p))),
      (''status'', StringValue (statusName (status p))),
      (''percentUsed'', NumberValue (percentUsed p))]"

section \<open>The parts of \<open>calculateFinancialSummary\<close>, named\<close>

text \<open>
  The intermediate values of \<open>calculateFinancialSummary\<close> as functions of their own, for
  the statements below; the unfolding lemmas relate them to the operation.
\<close>

definition periodExpenses :: "Transaction list \<Rightarrow> DateRange \<Rightarrow> Transaction list" where
  "periodExpenses txs r =
     filter (\<lambda>t. type t = Expense) (filter (\<lambda>t. start r \<le> date t \<and> date t \<le> end' r) txs)"

definition categoryTotals :: "Transaction list \<Rightarrow> JSValue JSObject" where
  "categoryTotals ts = foldl addToCategory [] ts"

definition share :: "rat \<Rightarrow> string \<times> JSValue \<Rightarrow> CategoryShare" where
  "share tot e =
     \<lparr>category = fst e, amount = snd e,
      percentage = (if tot > 0 then jsTimes (jsDivide (snd e) tot) 100 else Number 0)\<rparr>"

definition byAmountDesc :: "CategoryShare \<Rightarrow> CategoryShare \<Rightarrow> JSValue" where
  "byAmountDesc a b = jsMinus (CategoryShare.amount b) (CategoryShare.amount a)"

text \<open>The rule of \<open>generateSpendingInsights\<close> an insight comes from, in the order of the source.\<close>

fun insightRule :: "Insight \<Rightarrow> nat" where
  "insightRule LowSavingsRate = 1"
| "insightRule ExcellentSavingsRate = 1"
| "insightRule (OverBudget n cs) = 2"
| "insightRule (SpendingIncreased p) = 3"
| "insightRule (SpendingReduced p) = 3"
| "insightRule (TopCategory c p) = 4"

section \<open>The category breakdown, as the spec describes it\<close>

text \<open>
  The spec's words for \<open>topCategories\<close>: group the expenses of the period by category, sum
  each group, give each group its percentage of the total, sort by the sum, largest first,
  ties in the order of the groups, and keep the first five.  The definitions below follow
  these words and are compared with \<open>calculateFinancialSummary\<close> in the section on the
  category breakdown.

  The categories in the order in which they are first encountered:
\<close>

definition firstSeen :: "'a list \<Rightarrow> 'a list" where
  "firstSeen xs = foldl (\<lambda>seen x. if x \<in> set seen then seen else seen @ [x]) [] xs"

text \<open>
  The expenses that are grouped: those of the period, but for the ones whose category is
  named \<open>__proto__\<close>, which the totals object does not record.
\<close>

definition groupedExpenses :: "Transaction list \<Rightarrow> DateRange \<Rightarrow> Transaction list" where
  "groupedExpenses txs r =
     filter (\<lambda>t. Transaction.category t \<noteq> ''__proto__'') (periodExpenses txs r)"

definition expenseCategories :: "Transaction list \<Rightarrow> DateRange \<Rightarrow> string list" where
  "expenseCategories txs r = firstSeen (map Transaction.category (groupedExpenses txs r))"

text \<open>The sum of a group.\<close>

definition groupTotal :: "Transaction list \<Rightarrow> string \<Rightarrow> rat" where
  "groupTotal ts c = sum_list (map Transaction.amount (filter (\<lambda>t. Transaction.category t = c) ts))"

text \<open>The share of a category: the sum of its group and its percentage of the total \<open>tot\<close>.\<close>

definition groupShare :: "rat \<Rightarrow> Transaction list \<Rightarrow> string \<Rightarrow> CategoryShare" where
  "groupShare tot ts c =
     \<lparr>category = c, amount = Number (groupTotal ts c),
      percentage = Number (if tot > 0 then groupTotal ts c / tot * 100 else 0)\<rparr>"

text \<open>
  The categories \<open>cs\<close> sorted by the sum of their group, largest first, by the stable sort
  of the library.
\<close>

definition rankedCategories :: "Transaction list \<Rightarrow> string list \<Rightarrow> string list" where
  "rankedCategories ts cs = sort_key (\<lambda>c. - groupTotal ts c) cs"

text \<open>
  The order in which \<open>Object.entries\<close> lists categories that were created in the order
  \<open>cs\<close>: the names that are array indices first, in ascending numeric order.
\<close>

definition entryOrder :: "string list \<Rightarrow> string list" where
  "entryOrder cs = sort_key numericValue (filter isArrayIndex cs) @ filter (\<lambda>c. \<not> isArrayIndex c) cs"

text \<open>
  No expense of the period has a category named like a function that every object inherits;
  under such a name the totals object holds a string and not a sum.
\<close>

definition plainCategories :: "Transaction list \<Rightarrow> DateRange \<Rightarrow> bool" where
  "plainCategories txs r =
     list_all (\<lambda>t. Transaction.category t \<notin> set inheritedFunctions) (periodExpenses txs r)"



section \<open>Sample data\<close>

definition transaction :: "string \<Rightarrow> rat \<Rightarrow> TransactionType \<Rightarrow> Date \<Rightarrow> Transaction" where
  "transaction c a ty d =
     \<lparr>id' = [], amount = a, type = ty, date = d, category = c, description = []\<rparr>"

definition january2024 :: DateRange where
  "january2024 = \<lparr>start = (2024, 0, 1, 0), end' = (2024, 0, 31, 86399999)\<rparr>"

text \<open>The concrete scenario of the spec (section 8).\<close>

definition scenario :: "Transaction list" where
  "scenario =
     [transaction ''Salary'' 1000 Income (2024, 0, 5, 0),
      transaction ''Food'' 300 Expense (2024, 0, 10, 0),
      transaction ''Transportation'' 200 Expense (2024, 0, 15, 0)]"

definition refund :: "Transaction list" where
  "refund = [transaction ''Salary'' (- 100) Income (2024, 0, 5, 0)]"

definition now0 :: Date where
  "now0 = (2024, 1, 15, 43200000)"

definition budget :: "string \<Rightarrow> rat \<Rightarrow> BudgetData" where
  "budget c a = \<lparr>BudgetData.category = c, budgetAmount = a, spentAmount = 0, period = Month\<rparr>"

definition boundaryBudgets :: "BudgetData list" where
  "boundaryBudgets =
     [budget ''Food'' 100, budget ''Transportation'' 100, budget ''Housing'' 100,
      budget ''Utilities'' 100, budget ''Entertainment'' 0]"

definition boundarySpending :: "Transaction list" where
  "boundarySpending =
     [transaction ''Food'' 80 Expense (2024, 1, 1, 0),
      transaction ''Transportation'' 80.01 Expense (2024, 1, 2, 0),
      transaction ''Housing'' 100 Expense (2024, 1, 3, 0),
      transaction ''Utilities'' 100.01 Expense (2024, 1, 29, 86399999),
      transaction ''Entertainment'' 20 Expense (2024, 1, 10, 0)]"

definition overdrawn :: "BudgetData list" where
  "overdrawn = [budget ''Food'' (- 100)]"

definition trendSpending :: "Transaction list" where
  "trendSpending = scenario @ [transaction ''Housing'' 525 Expense (2024, 1, 1, 0)]"

definition trendSpendingUp :: "Transaction list" where
  "trendSpendingUp = scenario @ [transaction ''Housing'' 525.05 Expense (2024, 1, 1, 0)]"

definition trendSpendingDown :: "Transaction list" where
  "trendSpendingDown = scenario @ [transaction ''Housing'' 474.95 Expense (2024, 1, 1, 0)]"

definition summaryWithRate :: "rat \<Rightarrow> FinancialSummary" where
  "summaryWithRate x =
     \<lparr>totalIncome = 1000, totalExpenses = 1000 - 10 * x, netSavings = 10 * x,
      savingsRate = x, topCategories = []\<rparr>"

definition steadyTrends :: SpendingTrends where
  "steadyTrends = \<lparr>current = 500, previous = 500, changePercent = 0, trending = Stable\<rparr>"

definition risingTrends :: SpendingTrends where
  "risingTrends = \<lparr>current = 600, previous = 500, changePercent = 20, trending = Up\<rparr>"

definition fullSummary :: FinancialSummary where
  "fullSummary =
     \<lparr>totalIncome = 1000, totalExpenses = 950, netSavings = 50, savingsRate = 5,
      topCategories =
        [\<lparr>category = ''Food'', amount = Number 570, percentage = Number 60\<rparr>,
         \<lparr>category = ''Housing'', amount = Number 380, percentage = Number 40\<rparr>]\<rparr>"

definition january31 :: Date where
  "january31 = (2024, 0, 31, 43200000)"

definition indexNamed :: "Transaction list" where
  "indexNamed =
     [transaction ''2'' 10 Expense (2024, 0, 5, 0),
      transaction ''1'' 10 Expense (2024, 0, 10, 0)]"

definition protoNamed :: "Transaction list" where
  "protoNamed = [transaction ''__proto__'' 10 Expense (2024, 0, 5, 0)]"

definition constructorNamed :: "Transaction list" where
  "constructorNamed =
     [transaction ''constructor'' 300 Expense (2024, 0, 5, 0),
      transaction ''constructor'' 200 Expense (2024, 0, 10, 0)]"

definition tieSpending :: "Transaction list" where
  "tieSpending =
     [transaction ''Food'' 100 Expense (2024, 0, 2, 0),
      transaction ''Housing'' 200 Expense (2024, 0, 3, 0),
      transaction ''Transportation'' 100 Expense (2024, 0, 4, 0),
      transaction ''__proto__'' 1000 Expense (2024, 0, 5, 0),
      transaction ''Food'' 100 Expense (2024, 0, 9, 0),
      transaction ''Utilities'' 200 Expense (2024, 0, 10, 0),
      transaction ''Entertainment'' 100 Expense (2024, 0, 11, 0),
      transaction ''Health'' 200 Expense (2024, 0, 12, 0)]"



text \<open>
  A store for \<open>calculateBudgetPerformance\<close>: three transactions, the array of them at
  address 3, two budgets, the second with a property of its own, and the array of them at
  address 6.
\<close>

definition ledger :: Store where
  "ledger =
     [TransactionCell (transaction ''Food'' 50 Expense (2024, 1, 1, 0)),
      TransactionCell (transaction ''Housing'' 90 Expense (2024, 1, 3, 0)),
      TransactionCell (transaction ''Food'' 40 Expense (2024, 0, 20, 0)),
      ArrayCell [0, 1, 2],
      ObjectCell (budgetObject (budget ''Food'' 100)),
      ObjectCell (budgetObject (budget ''Housing'' 100) @ [(''note'', StringValue ''rent'')]),
      ArrayCell [4, 5]]"

text \<open>
  A store whose budget is the result of an earlier evaluation: it carries \<open>status\<close> and
  \<open>percentUsed\<close>.
\<close>

definition reevaluated :: Store where
  "reevaluated =
     [TransactionCell (transaction ''Food'' 50 Expense (2024, 1, 1, 0)),
      ArrayCell [0],
      ObjectCell [(''category'', StringValue ''Food''), (''budgetAmount'', NumberValue 100),
                  (''spentAmount'', NumberValue 120), (''period'', StringValue ''month''),
                  (''status'', StringValue ''over''), (''percentUsed'', NumberValue 120)],
      ArrayCell [2]]"

section \<open>Sums\<close>

lemma sumAmounts_sum_list: "sumAmounts ts = sum_list (map Transaction.amount ts)"
proof -
  have "foldl (\<lambda>s t. s + Transaction.amount t) a ts = a + sum_list (map Transaction.amount ts)"
    for a
    by (induction ts arbitrary: a) (simp_all add: algebra_simps)
  then show ?thesis by (simp add: sumAmounts_def)
qed

section \<open>The financial summary\<close>

text \<open>
  C1.  For every transaction list and every range, \<open>totalIncome\<close> is the sum of the amounts
  of the income transactions whose date lies in the range, both endpoints included,
  \<open>totalExpenses\<close> the same sum over the expense transactions, and \<open>netSavings\<close> their
  difference; on the empty list all four numbers are 0 and \<open>topCategories\<close> is empty.
\<close>

theorem calculateFinancialSummary_totals:
  "totalIncome (calculateFinancialSummary txs r) =
     sum_list (map Transaction.amount
       (filter (\<lambda>t. type t = Income \<and> start r \<le> date t \<and> date t \<le> end' r) txs))
   \<and> totalExpenses (calculateFinancialSummary txs r) =
     sum_list (map Transaction.amount
       (filter (\<lambda>t. type t = Expense \<and> start r \<le> date t \<and> date t \<le> end' r) txs))
   \<and> netSavings (calculateFinancialSummary txs r) =
     totalIncome (calculateFinancialSummary txs r) - totalExpenses (calculateFinancialSummary txs r)
   \<and> calculateFinancialSummary [] r =
     \<lparr>totalIncome = 0, totalExpenses = 0, netSavings = 0, savingsRate = 0, topCategories = []\<rparr>"
  by (simp add: calculateFinancialSummary_def Let_def sumAmounts_sum_list conj_commute
        objectEntries_def sortBy_def cong: conj_cong)

theorem calculateFinancialSummary_totals_witness:
  "totalIncome (calculateFinancialSummary scenario january2024) = 1000
   \<and> totalExpenses (calculateFinancialSummary scenario january2024) = 500
   \<and> netSavings (calculateFinancialSummary scenario january2024) = 500"
  using calculateFinancialSummary_totals [of scenario january2024]
  by (simp add: scenario_def january2024_def transaction_def)

section \<open>Sorting and the category shares\<close>

lemma set_insertBy: "set (insertBy cmp x ys) = insert x (set ys)"
  by (induction ys) auto

lemma set_sortBy: "set (sortBy cmp xs) = set xs"
  by (induction xs) (simp_all add: sortBy_def set_insertBy)

lemma totalExpenses_unfold:
  "totalExpenses (calculateFinancialSummary txs r) = sumAmounts (periodExpenses txs r)"
  by (simp add: calculateFinancialSummary_def Let_def periodExpenses_def)




lemma topCategories_unfold:
  "topCategories (calculateFinancialSummary txs r) =
     take 5 (sortBy byAmountDesc
       (map (share (sumAmounts (periodExpenses txs r)))
          (objectEntries (categoryTotals (periodExpenses txs r)))))"
proof -
  have 1: "(\<lambda>a b. jsMinus (CategoryShare.amount b) (CategoryShare.amount a)) = byAmountDesc"
    by (auto simp: byAmountDesc_def fun_eq_iff)
  have 2: "(\<lambda>(category, amount).
             \<lparr>category = category, amount = amount,
              percentage = (if tot > 0 then jsTimes (jsDivide amount tot) 100 else Number 0)\<rparr>) =
           share tot"
    for tot
    by (auto simp: share_def fun_eq_iff)
  show ?thesis
    unfolding calculateFinancialSummary_def Let_def periodExpenses_def categoryTotals_def 1 2
    by simp
qed

lemma percentage_topCategories:
  assumes "e \<in> set (topCategories (calculateFinancialSummary txs r))"
  shows "percentage e =
     (if totalExpenses (calculateFinancialSummary txs r) > 0
      then jsTimes (jsDivide (CategoryShare.amount e)
             (totalExpenses (calculateFinancialSummary txs r))) 100
      else Number 0)"
proof -
  from assms have "e \<in> set (map (share (sumAmounts (periodExpenses txs r)))
          (objectEntries (categoryTotals (periodExpenses txs r))))"
    unfolding topCategories_unfold by (auto simp: set_sortBy dest: in_set_takeD)
  then show ?thesis
    unfolding totalExpenses_unfold by (auto simp: share_def)
qed

section \<open>Evaluating the sample data\<close>

lemmas date_defs = getFullYear_def getMonth_def getDate_def getTimeOfDay_def
  startOfMonth_def endOfMonth_def startOfQuarter_def endOfQuarter_def startOfYear_def
  endOfYear_def subMonths_def newDate_def daysInMonth_def isLeapYear_def
  getCurrentMonth_def getCurrentQuarter_def getCurrentYear_def

lemma boundary_percentUsed:
  "map percentUsed (calculateBudgetPerformance now0 now0 boundarySpending boundaryBudgets Month) =
     [80, 80.01, 100, 100.01, 0]"
  by (simp add: calculateBudgetPerformance_def budgetResult_def Let_def boundarySpending_def
      boundaryBudgets_def budget_def transaction_def now0_def sumAmounts_def date_defs)

section \<open>Ratios with a degenerate denominator\<close>

text \<open>
  C2, as stated, does not hold: the claim takes the ratio to be the quotient whenever the
  denominator is not 0, and the guards of the source test \<open>> 0\<close>.  A single income
  transaction of amount -100 has \<open>totalIncome = -100\<close> and \<open>savingsRate = 0\<close>, where the
  quotient is 100; a budget of -100 with 80 spent has \<open>percentUsed = 0\<close>, where the quotient
  is -80.
\<close>

theorem ratio_guards_counterexample:
  "totalIncome (calculateFinancialSummary refund january2024) = - 100
   \<and> netSavings (calculateFinancialSummary refund january2024) /
         totalIncome (calculateFinancialSummary refund january2024) * 100 = 100
   \<and> savingsRate (calculateFinancialSummary refund january2024) = 0
   \<and> map budgetAmount (calculateBudgetPerformance now0 now0 boundarySpending overdrawn Month) =
       [- 100]
   \<and> map (\<lambda>b. spentAmount b / budgetAmount b * 100)
         (calculateBudgetPerformance now0 now0 boundarySpending overdrawn Month) = [- 80]
   \<and> map percentUsed (calculateBudgetPerformance now0 now0 boundarySpending overdrawn Month) = [0]"
  by (simp add: calculateFinancialSummary_def Let_def refund_def january2024_def transaction_def
      sumAmounts_def calculateBudgetPerformance_def budgetResult_def boundarySpending_def
      overdrawn_def budget_def now0_def date_defs)

text \<open>
  C2, amended.  Every ratio is guarded by "denominator > 0": for every input,
  \<open>savingsRate\<close>, each \<open>percentage\<close> of \<open>topCategories\<close>, each \<open>percentUsed\<close> and
  \<open>changePercent\<close> equal the quotient times 100 when the denominator (\<open>totalIncome\<close>,
  \<open>totalExpenses\<close>, \<open>budgetAmount\<close>, previous spending) is positive, and 0 otherwise,
  in particular when it is 0.
\<close>

theorem ratio_guards:
  "savingsRate (calculateFinancialSummary txs r) =
     (if totalIncome (calculateFinancialSummary txs r) > 0
      then netSavings (calculateFinancialSummary txs r) /
             totalIncome (calculateFinancialSummary txs r) * 100
      else 0)
   \<and> (\<forall>e \<in> set (topCategories (calculateFinancialSummary txs r)).
        percentage e =
          (if totalExpenses (calculateFinancialSummary txs r) > 0
           then jsTimes (jsDivide (CategoryShare.amount e)
                  (totalExpenses (calculateFinancialSummary txs r))) 100
           else Number 0))
   \<and> (\<forall>b \<in> set (calculateBudgetPerformance now now' txs budgets p).
        percentUsed b =
          (if budgetAmount b > 0 then spentAmount b / budgetAmount b * 100 else 0))
   \<and> changePercent (calculateSpendingTrends now now' txs p) =
       (if SpendingTrends.previous (calculateSpendingTrends now now' txs p) > 0
        then (SpendingTrends.current (calculateSpendingTrends now now' txs p) -
              SpendingTrends.previous (calculateSpendingTrends now now' txs p)) /
               SpendingTrends.previous (calculateSpendingTrends now now' txs p) * 100
        else 0)"
proof (intro conjI ballI)
  show "savingsRate (calculateFinancialSummary txs r) =
     (if totalIncome (calculateFinancialSummary txs r) > 0
      then netSavings (calculateFinancialSummary txs r) /
             totalIncome (calculateFinancialSummary txs r) * 100
      else 0)"
    by (simp add: calculateFinancialSummary_def Let_def)
next
  fix e assume "e \<in> set (topCategories (calculateFinancialSummary txs r))"
  then show "percentage e =
          (if totalExpenses (calculateFinancialSummary txs r) > 0
           then jsTimes (jsDivide (CategoryShare.amount e)
                  (totalExpenses (calculateFinancialSummary txs r))) 100
           else Number 0)"
    by (rule percentage_topCategories)
next
  fix b assume "b \<in> set (calculateBudgetPerformance now now' txs budgets p)"
  then show "percentUsed b =
          (if budgetAmount b > 0 then spentAmount b / budgetAmount b * 100 else 0)"
    by (auto simp: calculateBudgetPerformance_def budgetResult_def Let_def)
next
  show "changePercent (calculateSpendingTrends now now' txs p) =
       (if SpendingTrends.previous (calculateSpendingTrends now now' txs p) > 0
        then (SpendingTrends.current (calculateSpendingTrends now now' txs p) -
              SpendingTrends.previous (calculateSpendingTrends now now' txs p)) /
               SpendingTrends.previous (calculateSpendingTrends now now' txs p) * 100
        else 0)"
    by (simp add: calculateSpendingTrends_def Let_def)
qed

theorem ratio_guards_witness:
  "savingsRate (calculateFinancialSummary scenario january2024) = 50
   \<and> map percentage (topCategories (calculateFinancialSummary scenario january2024)) =
       [Number 60, Number 40]
   \<and> savingsRate (calculateFinancialSummary refund january2024) = 0
   \<and> map percentUsed
         (calculateBudgetPerformance now0 now0 boundarySpending boundaryBudgets Month) =
       [80, 80.01, 100, 100.01, 0]
   \<and> changePercent (calculateSpendingTrends now0 now0 trendSpending Month) = 5"
proof -
  let ?s = "calculateFinancialSummary scenario january2024"
  have inc: "totalIncome ?s = 1000" and exp: "totalExpenses ?s = 500" and net: "netSavings ?s = 500"
    by (simp_all add: calculateFinancialSummary_def Let_def scenario_def january2024_def
        transaction_def sumAmounts_def)
  have amounts: "map CategoryShare.amount (topCategories ?s) = [Number 300, Number 200]"
    by (simp add: calculateFinancialSummary_def Let_def scenario_def january2024_def
        transaction_def sumAmounts_def addToCategory_def getProp_def setProp_def orZeroPlus_def
        inheritedFunctions_def objectEntries_def isArrayIndex_def isDigit_def sortBy_def)
  have "map percentage (topCategories ?s) =
        map (\<lambda>e. jsTimes (jsDivide (CategoryShare.amount e) 500) 100) (topCategories ?s)"
    using ratio_guards [of scenario january2024] exp by simp
  also have "\<dots> =
        map (\<lambda>a. jsTimes (jsDivide a 500) 100) (map CategoryShare.amount (topCategories ?s))"
    by (simp add: comp_def)
  also have "\<dots> = [Number 60, Number 40]"
    unfolding amounts by simp
  finally have pct: "map percentage (topCategories ?s) = [Number 60, Number 40]" .
  have rate: "savingsRate ?s = 50"
    using ratio_guards [of scenario january2024] inc net by simp
  have "totalIncome (calculateFinancialSummary refund january2024) = - 100"
    by (simp add: calculateFinancialSummary_def Let_def refund_def january2024_def
        transaction_def sumAmounts_def)
  then have rate0: "savingsRate (calculateFinancialSummary refund january2024) = 0"
    using ratio_guards [of refund january2024] by simp
  have "SpendingTrends.previous (calculateSpendingTrends now0 now0 trendSpending Month) = 500"
    and "SpendingTrends.current (calculateSpendingTrends now0 now0 trendSpending Month) = 525"
    by (simp_all add: calculateSpendingTrends_def Let_def trendSpending_def scenario_def
        transaction_def now0_def sumAmounts_def date_defs)
  then have change: "changePercent (calculateSpendingTrends now0 now0 trendSpending Month) = 5"
    using ratio_guards [where txs = trendSpending and now = now0 and now' = now0 and p = Month]
    by simp
  from rate pct rate0 boundary_percentUsed change show ?thesis by simp
qed

section \<open>Budget status\<close>

text \<open>
  C3.  For every result of \<open>calculateBudgetPerformance\<close> the status is \<open>over\<close> exactly
  when \<open>percentUsed > 100\<close>, \<open>ontrack\<close> exactly when \<open>80 < percentUsed \<le> 100\<close>, and
  \<open>under\<close> exactly when \<open>percentUsed \<le> 80\<close>; so 80 is \<open>under\<close> and 100 is \<open>ontrack\<close>.
\<close>

theorem budget_status_thresholds:
  "\<forall>b \<in> set (calculateBudgetPerformance now now' txs budgets p).
     (status b = Over \<longleftrightarrow> percentUsed b > 100) \<and>
     (status b = OnTrack \<longleftrightarrow> 80 < percentUsed b \<and> percentUsed b \<le> 100) \<and>
     (status b = Under \<longleftrightarrow> percentUsed b \<le> 80)"
  by (auto simp: calculateBudgetPerformance_def budgetResult_def Let_def)

theorem budget_status_thresholds_witness:
  "map percentUsed
     (calculateBudgetPerformance now0 now0 boundarySpending boundaryBudgets Month) =
     [80, 80.01, 100, 100.01, 0]
   \<and> map status
     (calculateBudgetPerformance now0 now0 boundarySpending boundaryBudgets Month) =
     [Under, OnTrack, OnTrack, Over, Under]"
proof -
  let ?rs = "calculateBudgetPerformance now0 now0 boundarySpending boundaryBudgets Month"
  let ?classify = "\<lambda>x::rat. if x > 100 then Over else if x > 80 then OnTrack else Under"
  have "\<forall>b \<in> set ?rs. status b = ?classify (percentUsed b)"
    using budget_status_thresholds [of now0 now0 boundarySpending boundaryBudgets Month]
    by auto
  then have "map status ?rs = map ?classify (map percentUsed ?rs)"
    by (simp add: comp_def)
  also have "\<dots> = [Under, OnTrack, OnTrack, Over, Under]"
    unfolding boundary_percentUsed by simp
  finally show ?thesis
    using boundary_percentUsed by simp
qed

section \<open>Spending trend\<close>

text \<open>
  C4.  For every input, \<open>calculateSpendingTrends\<close> returns \<open>stable\<close> exactly when
  \<open>|changePercent| \<le> 5\<close>, \<open>up\<close> exactly when \<open>changePercent > 5\<close> and \<open>down\<close>
  exactly when \<open>changePercent < -5\<close>; so 5 and -5 are \<open>stable\<close>.
\<close>

theorem spending_trend_thresholds:
  "(trending (calculateSpendingTrends now now' txs p) = Stable \<longleftrightarrow>
      \<bar>changePercent (calculateSpendingTrends now now' txs p)\<bar> \<le> 5)
   \<and> (trending (calculateSpendingTrends now now' txs p) = Up \<longleftrightarrow>
      changePercent (calculateSpendingTrends now now' txs p) > 5)
   \<and> (trending (calculateSpendingTrends now now' txs p) = Down \<longleftrightarrow>
      changePercent (calculateSpendingTrends now now' txs p) < - 5)"
proof -
  define c where "c = changePercent (calculateSpendingTrends now now' txs p)"
  have "trending (calculateSpendingTrends now now' txs p) =
        (if \<bar>c\<bar> > 5 then (if c > 0 then Up else Down) else Stable)"
    unfolding c_def by (simp add: calculateSpendingTrends_def Let_def)
  then show ?thesis
    unfolding c_def [symmetric] by (auto simp: abs_if split: if_splits)
qed

lemma trend_changePercent:
  "changePercent (calculateSpendingTrends now0 now0 trendSpending Month) = 5"
  "changePercent (calculateSpendingTrends now0 now0 trendSpendingUp Month) = 5.01"
  "changePercent (calculateSpendingTrends now0 now0 trendSpendingDown Month) = - 5.01"
  by (simp_all add: calculateSpendingTrends_def Let_def trendSpending_def trendSpendingUp_def
      trendSpendingDown_def scenario_def transaction_def now0_def sumAmounts_def date_defs)

theorem spending_trend_thresholds_witness:
  "trending (calculateSpendingTrends now0 now0 trendSpending Month) = Stable
   \<and> trending (calculateSpendingTrends now0 now0 trendSpendingUp Month) = Up
   \<and> trending (calculateSpendingTrends now0 now0 trendSpendingDown Month) = Down"
  using spending_trend_thresholds [of now0 now0 trendSpending Month]
    spending_trend_thresholds [of now0 now0 trendSpendingUp Month]
    spending_trend_thresholds [of now0 now0 trendSpendingDown Month]
  by (simp add: trend_changePercent)

section \<open>Budget results and their budgets\<close>

text \<open>
  What \<open>calculateBudgetPerformance\<close> does to the store.  A store extends another when it
  differs only by allocations; reading through an address of the smaller store gives the
  same in both.
\<close>

lemma extends_refl: "extends h h"
  by (simp add: extends_def)

lemma extends_append: "extends h (h @ ext)"
  by (simp add: extends_def)

lemma extends_trans: "extends h h1 \<Longrightarrow> extends h1 h2 \<Longrightarrow> extends h h2"
  unfolding extends_def
  by (metis append_eq_conv_conj append_take_drop_id take_append take_all_iff length_take min.cobounded2 order_refl)

lemma extends_length: "extends h h' \<Longrightarrow> length h \<le> length h'"
  unfolding extends_def by (metis length_take min.cobounded1 min.commute)

lemma extends_cellAt:
  assumes "extends h h'" and "cellAt h a = Some c"
  shows "cellAt h' a = Some c"
proof -
  from assms(2) have a: "a < length h" and c: "h ! a = c"
    by (auto simp: cellAt_def split: if_splits)
  from assms(1) have "h' ! a = take (length h) h' ! a"
    using a by simp
  with assms(1) c have "h' ! a = c"
    by (simp add: extends_def)
  moreover have "a < length h'"
    using a extends_length [OF assms(1)] by simp
  ultimately show ?thesis
    by (simp add: cellAt_def)
qed

lemma extends_readArray:
  "extends h h' \<Longrightarrow> readArray h a = Some xs \<Longrightarrow> readArray h' a = Some xs"
  by (auto simp: readArray_def dest: extends_cellAt split: option.splits Cell.splits)

lemma extends_readTransaction:
  "extends h h' \<Longrightarrow> readTransaction h a = Some t \<Longrightarrow> readTransaction h' a = Some t"
  by (auto simp: readTransaction_def dest: extends_cellAt split: option.splits Cell.splits)

lemma extends_readObject:
  "extends h h' \<Longrightarrow> readObject h a = Some props \<Longrightarrow> readObject h' a = Some props"
  by (auto simp: readObject_def dest: extends_cellAt split: option.splits Cell.splits)

lemma those_map_Some:
  "those (map f xs) = Some ys \<Longrightarrow> (\<And>x y. x \<in> set xs \<Longrightarrow> f x = Some y \<Longrightarrow> g x = Some y)
   \<Longrightarrow> those (map g xs) = Some ys"
proof (induction xs arbitrary: ys)
  case Nil
  then show ?case by simp
next
  case (Cons x xs)
  then show ?case
    by (auto split: option.splits)
qed

lemma extends_readTransactions:
  assumes "extends h h'" and "readTransactions h a = Some xts"
  shows "readTransactions h' a = Some xts"
proof -
  from assms(2) obtain xs ts where xs: "readArray h a = Some xs"
    and ts: "those (map (readTransaction h) xs) = Some ts" and xts: "xts = zip xs ts"
    by (auto simp: readTransactions_def split: option.splits)
  have "those (map (readTransaction h') xs) = Some ts"
    using ts by (rule those_map_Some) (rule extends_readTransaction [OF assms(1)])
  with extends_readArray [OF assms(1) xs] xts show ?thesis
    by (simp add: readTransactions_def)
qed

lemma those_map_filter:
  assumes "those (map f xs) = Some ys"
  shows "those (map f (map fst (filter P (zip xs ys)))) = Some (map snd (filter P (zip xs ys)))"
  using assms
proof (induction xs arbitrary: ys)
  case Nil
  then show ?case by simp
next
  case (Cons x xs)
  then obtain y ys' where "f x = Some y" "those (map f xs) = Some ys'" "ys = y # ys'"
    by (auto split: option.splits)
  with Cons.IH [of ys'] show ?case
    by simp
qed

text \<open>Reading the array that \<open>filter\<close> has just allocated.\<close>

lemma readTransactions_filtered:
  assumes "readTransactions h a = Some xts"
  shows "readTransactions (h @ [ArrayCell (map fst (filter P xts))]) (length h) =
     Some (filter P xts)"
proof -
  from assms obtain xs ts where xs: "readArray h a = Some xs"
    and ts: "those (map (readTransaction h) xs) = Some ts" and xts: "xts = zip xs ts"
    by (auto simp: readTransactions_def split: option.splits)
  let ?h' = "h @ [ArrayCell (map fst (filter P xts))]"
  have ext: "extends h ?h'"
    by (rule extends_append)
  have "those (map (readTransaction ?h') xs) = Some ts"
    using ts by (rule those_map_Some) (rule extends_readTransaction [OF ext])
  then have "those (map (readTransaction ?h') (map fst (filter P (zip xs ts)))) =
      Some (map snd (filter P (zip xs ts)))"
    by (rule those_map_filter)
  moreover have "readArray ?h' (length h) = Some (map fst (filter P xts))"
    by (simp add: readArray_def cellAt_def)
  moreover have "zip (map fst (filter P (zip xs ts))) (map snd (filter P (zip xs ts))) =
      filter P (zip xs ts)"
    by (simp add: zip_map_fst_snd)
  ultimately show ?thesis
    by (simp add: readTransactions_def xts)
qed

lemma map_of_defineProp:
  "map_of (defineProp obj k v) k' = (if k' = k then Some v else map_of obj k')"
  by (induction obj) auto

lemma map_of_objectEntries:
  assumes "distinct (map fst obj)"
  shows "map_of (objectEntries obj) = map_of obj"
proof -
  have "mset (objectEntries obj) = mset obj"
    by (simp add: objectEntries_def)
  then have "mset (map fst (objectEntries obj)) = mset (map fst obj)"
    by (metis mset_map)
  then have "distinct (map fst (objectEntries obj))"
    using assms by (metis mset_eq_imp_distinct_iff)
  moreover have "set (objectEntries obj) = set obj"
    by (auto simp: objectEntries_def)
  ultimately show ?thesis
    using assms by (simp add: map_of_inject_set)
qed

lemma map_of_spreadAndSet:
  assumes "distinct (map fst props)"
  shows "map_of (spreadAndSet props [(k1, v1), (k2, v2), (k3, v3)]) k =
     (if k = k3 then Some v3 else if k = k2 then Some v2 else if k = k1 then Some v1
      else map_of props k)"
  by (simp add: spreadAndSet_def map_of_defineProp map_of_objectEntries [OF assms])

text \<open>What the callback does to the store: two allocations, no write.\<close>

lemma budgetCallback_Some:
  assumes "budgetCallback periodInfo transactions h b = Some (h', r)"
  shows "\<exists>kept props s st u.
     h' = h @ [ArrayCell kept,
               ObjectCell (spreadAndSet props
                 [(''spentAmount'', NumberValue s), (''status'', StringValue (statusName st)),
                  (''percentUsed'', NumberValue u)])] \<and>
     r = Suc (length h) \<and> readObject h b = Some props"
proof -
  from assms obtain props where props: "readObject h b = Some props"
    by (auto simp: budgetCallback_def split: option.splits)
  from assms props obtain h1 a where f: "arrayFilter h transactions
             (\<lambda>t. Some (StringValue (Transaction.category t)) = map_of props ''category'' \<and>
                  type t = Expense \<and>
                  start (PeriodInfo.current periodInfo) \<le> date t \<and>
                  date t \<le> end' (PeriodInfo.current periodInfo)) = Some (h1, a)"
    by (auto simp: budgetCallback_def split: option.splits)
  then obtain kept where h1: "h1 = h @ [ArrayCell kept]"
    by (auto simp: arrayFilter_def allocate_def split: option.splits)
  from assms props f obtain s where s: "arraySum h1 a = Some s"
    by (auto simp: budgetCallback_def split: option.splits)
  from assms props f s obtain limit where
    limit: "numberOrUndefined (map_of props ''budgetAmount'') = Some limit"
    by (auto simp: budgetCallback_def split: option.splits)
  define u where "u = (case limit of Some b \<Rightarrow> if b > 0 then (s / b) * 100 else 0 | None \<Rightarrow> 0)"
  define st where "st = (if u > 100 then Over else if u > 80 then OnTrack else Under)"
  from assms have "(h', r) = allocate h1
                (ObjectCell (spreadAndSet props
                   [(''spentAmount'', NumberValue s),
                    (''status'', StringValue (statusName st)),
                    (''percentUsed'', NumberValue u)]))"
    using props f s limit
    by (auto simp: budgetCallback_def Let_def u_def st_def)
  then show ?thesis
    using props h1 by (auto simp: allocate_def)
qed

lemma budgetCallback_returns:
  assumes "readObject h b = Some props"
    and "numberOrUndefined (map_of props ''budgetAmount'') \<noteq> None"
    and "readTransactions h transactions = Some xts"
  shows "\<exists>h' r. budgetCallback periodInfo transactions h b = Some (h', r)"
proof -
  let ?P = "\<lambda>(x, t). Some (StringValue (Transaction.category t)) = map_of props ''category'' \<and>
                  type t = Expense \<and>
                  start (PeriodInfo.current periodInfo) \<le> date t \<and>
                  date t \<le> end' (PeriodInfo.current periodInfo)"
  have "arraySum (h @ [ArrayCell (map fst (filter ?P xts))]) (length h) =
      Some (sumAmounts (map snd (filter ?P xts)))"
    using readTransactions_filtered [OF assms(3), of ?P] by (simp add: arraySum_def)
  with assms show ?thesis
    by (auto simp: budgetCallback_def arrayFilter_def allocate_def Let_def
        split: option.splits prod.splits)
qed

lemma mapElements_extends:
  assumes "\<And>h x h1 y. f h x = Some (h1, y) \<Longrightarrow> extends h h1"
    and "mapElements f h xs = Some (h', ys)"
  shows "extends h h'"
  using assms(2)
proof (induction xs arbitrary: h ys)
  case Nil
  then show ?case by (simp add: extends_refl)
next
  case (Cons x xs)
  then obtain h1 y ys' where f: "f h x = Some (h1, y)"
    and m: "mapElements f h1 xs = Some (h', ys')"
    by (auto split: option.splits)
  from assms(1) [OF f] Cons.IH [OF m] show ?case
    by (rule extends_trans)
qed

lemma budgetCallback_extends:
  assumes "budgetCallback periodInfo transactions h b = Some (h', r)"
  shows "extends h h'"
  using budgetCallback_Some [OF assms] by (auto simp: extends_def)

lemma mapElements_budgetCallback:
  assumes "readTransactions h0 transactions = Some xts"
    and "list_all (\<lambda>b. case readObject h0 b of
                          None \<Rightarrow> False
                        | Some props \<Rightarrow>
                            distinct (map fst props) \<and>
                            numberOrUndefined (map_of props ''budgetAmount'') \<noteq> None) bs"
    and "extends h0 h"
  shows "\<exists>h' rs. mapElements (budgetCallback periodInfo transactions) h bs = Some (h', rs) \<and>
           extends h h' \<and> list_all2 (spreadOf h0 h') bs rs"
  using assms(2,3)
proof (induction bs arbitrary: h)
  case Nil
  then show ?case by (simp add: extends_refl)
next
  case (Cons b bs)
  from Cons.prems(1) obtain props where props: "readObject h0 b = Some props"
    and d: "distinct (map fst props)"
    and n: "numberOrUndefined (map_of props ''budgetAmount'') \<noteq> None"
    by (auto split: option.splits)
  have props': "readObject h b = Some props"
    using Cons.prems(2) props by (rule extends_readObject)
  have xts: "readTransactions h transactions = Some xts"
    using Cons.prems(2) assms(1) by (rule extends_readTransactions)
  from budgetCallback_returns [OF props' n xts]
  obtain h1 y where c: "budgetCallback periodInfo transactions h b = Some (h1, y)"
    by blast
  from budgetCallback_Some [OF c] props' obtain kept s st u where
    h1: "h1 = h @ [ArrayCell kept,
               ObjectCell (spreadAndSet props
                 [(''spentAmount'', NumberValue s), (''status'', StringValue (statusName st)),
                  (''percentUsed'', NumberValue u)])]"
    and y: "y = Suc (length h)"
    by auto
  have e1: "extends h h1"
    using c by (rule budgetCallback_extends)
  have e01: "extends h0 h1"
    using Cons.prems(2) e1 by (rule extends_trans)
  from Cons.prems(1) have "list_all (\<lambda>b. case readObject h0 b of
                          None \<Rightarrow> False
                        | Some props \<Rightarrow>
                            distinct (map fst props) \<and>
                            numberOrUndefined (map_of props ''budgetAmount'') \<noteq> None) bs"
    by simp
  from Cons.IH [OF this e01] obtain h2 rs where
    m: "mapElements (budgetCallback periodInfo transactions) h1 bs = Some (h2, rs)"
    and e12: "extends h1 h2" and rel: "list_all2 (spreadOf h0 h2) bs rs"
    by blast
  let ?ps = "spreadAndSet props
                 [(''spentAmount'', NumberValue s), (''status'', StringValue (statusName st)),
                  (''percentUsed'', NumberValue u)]"
  have "readObject h1 y = Some ?ps"
    by (simp add: readObject_def cellAt_def h1 y nth_append)
  with e12 have ps: "readObject h2 y = Some ?ps"
    by (rule extends_readObject)
  have "length h0 \<le> y"
    using extends_length [OF Cons.prems(2)] y by simp
  then have "spreadOf h0 h2 b y"
    unfolding spreadOf_def using props ps map_of_spreadAndSet [OF d]
    by auto
  with rel have "list_all2 (spreadOf h0 h2) (b # bs) (y # rs)"
    by simp
  moreover have "mapElements (budgetCallback periodInfo transactions) h (b # bs) = Some (h2, y # rs)"
    using c m by simp
  moreover have "extends h h2"
    using e1 e12 by (rule extends_trans)
  ultimately show ?case
    by blast
qed

lemma spreadOf_extends:
  assumes "extends h1 h2" and "spreadOf h h1 b y"
  shows "spreadOf h h2 b y"
proof -
  from assms(2) obtain props ps s st u where y: "length h \<le> y"
    and props: "readObject h b = Some props" and ps: "readObject h1 y = Some ps"
    and rest: "(\<forall>k. k \<notin> {''spentAmount'', ''status'', ''percentUsed''} \<longrightarrow> map_of ps k = map_of props k) \<and>
         map_of ps ''spentAmount'' = Some (NumberValue s) \<and>
         map_of ps ''status'' = Some (StringValue (statusName st)) \<and>
         map_of ps ''percentUsed'' = Some (NumberValue u)"
    unfolding spreadOf_def by (elim conjE exE) (rule that, assumption+, (intro conjI; assumption))
  have "readObject h2 y = Some ps"
    using assms(1) ps by (rule extends_readObject)
  with y props rest show ?thesis
    unfolding spreadOf_def by (intro conjI exI [of _ props] exI [of _ ps] exI [of _ s] exI [of _ st] exI [of _ u]) simp_all
qed

lemma wellFormed_readTransactions:
  assumes "readArray h transactions = Some ts"
    and "list_all (\<lambda>a. readTransaction h a \<noteq> None) ts"
  shows "\<exists>xts. readTransactions h transactions = Some xts"
proof -
  have "\<exists>ys. those (map (readTransaction h) ts) = Some ys"
    using assms(2) by (induction ts) auto
  with assms(1) show ?thesis
    by (auto simp: readTransactions_def)
qed

text \<open>
  C9, amended.  For every store, every two references \<open>transactions\<close> and \<open>budgets\<close>
  and every unit: a call of \<open>calculateBudgetPerformance\<close> that returns leaves every cell
  of the store as it was (the two arrays, the transactions and the budgets are not mutated;
  the call only allocates).  When \<open>transactions\<close> is an array of transactions and
  \<open>budgets\<close> an array of budget objects, the call returns a new array with exactly one
  result per budget, in the order of the budgets; each result is a new object that has every
  property of its budget unchanged, apart from \<open>spentAmount\<close>, \<open>status\<close> and
  \<open>percentUsed\<close>, which the call sets, whether the budget has them or not.
\<close>

theorem budget_results_in_store:
  "(\<forall>h' r. calculateBudgetPerformanceInStore now now' h transactions budgets period' = Some (h', r)
       \<longrightarrow> take (length h) h' = h) \<and>
   (wellFormed h transactions budgets \<longrightarrow>
      (\<exists>h' r bs rs.
         calculateBudgetPerformanceInStore now now' h transactions budgets period' = Some (h', r) \<and>
         readArray h budgets = Some bs \<and> readArray h' r = Some rs \<and> length h \<le> r \<and>
         list_all2 (spreadOf h h') bs rs))"
proof (intro conjI allI impI)
  fix h' r
  assume run: "calculateBudgetPerformanceInStore now now' h transactions budgets period' = Some (h', r)"
  let ?f = "budgetCallback (getPeriodInfo now now' period') transactions"
  from run obtain bs h1 rs where m: "mapElements ?f h bs = Some (h1, rs)"
    and h': "h' = h1 @ [ArrayCell rs]"
    by (auto simp: calculateBudgetPerformanceInStore_def arrayMap_def allocate_def Let_def
        split: option.splits)
  have "extends h h1"
  proof (rule mapElements_extends [where f = ?f, OF _ m])
    fix h x h1 y
    assume "?f h x = Some (h1, y)"
    then show "extends h h1"
      by (rule budgetCallback_extends)
  qed
  moreover have "extends h1 h'"
    unfolding h' by (rule extends_append)
  ultimately have "extends h h'"
    by (rule extends_trans)
  then show "take (length h) h' = h"
    by (simp add: extends_def)
next
  assume wf: "wellFormed h transactions budgets"
  let ?f = "budgetCallback (getPeriodInfo now now' period') transactions"
  from wf obtain ts bs where ts: "readArray h transactions = Some ts"
    and bs: "readArray h budgets = Some bs"
    and rt: "list_all (\<lambda>a. readTransaction h a \<noteq> None) ts"
    and ro: "list_all (\<lambda>b. case readObject h b of
                          None \<Rightarrow> False
                        | Some props \<Rightarrow>
                            distinct (map fst props) \<and>
                            numberOrUndefined (map_of props ''budgetAmount'') \<noteq> None) bs"
    by (auto simp: wellFormed_def split: option.splits)
  from wellFormed_readTransactions [OF ts rt] obtain xts where
    xts: "readTransactions h transactions = Some xts"
    by blast
  from mapElements_budgetCallback [OF xts ro extends_refl] obtain h1 rs where
    m: "mapElements ?f h bs = Some (h1, rs)" and e: "extends h h1"
    and rel: "list_all2 (spreadOf h h1) bs rs"
    by blast
  let ?h' = "h1 @ [ArrayCell rs]"
  have run: "calculateBudgetPerformanceInStore now now' h transactions budgets period' =
      Some (?h', length h1)"
    by (simp add: calculateBudgetPerformanceInStore_def arrayMap_def allocate_def bs m)
  have e': "extends h1 ?h'"
    by (rule extends_append)
  have rel': "list_all2 (spreadOf h ?h') bs rs"
    using rel
  proof (rule list_all2_mono)
    fix b y
    assume "spreadOf h h1 b y"
    with e' show "spreadOf h ?h' b y"
      by (rule spreadOf_extends)
  qed
  have "readArray ?h' (length h1) = Some rs"
    by (simp add: readArray_def cellAt_def)
  moreover have "length h \<le> length h1"
    using e by (rule extends_length)
  ultimately have "calculateBudgetPerformanceInStore now now' h transactions budgets period' =
         Some (?h', length h1) \<and>
         readArray h budgets = Some bs \<and> readArray ?h' (length h1) = Some rs \<and>
         length h \<le> length h1 \<and> list_all2 (spreadOf h ?h') bs rs"
    using run bs rel' by simp
  then show "\<exists>h' r bs rs.
         calculateBudgetPerformanceInStore now now' h transactions budgets period' = Some (h', r) \<and>
         readArray h budgets = Some bs \<and> readArray h' r = Some rs \<and> length h \<le> r \<and>
         list_all2 (spreadOf h h') bs rs"
    by (intro exI)
qed

lemmas store_defs = calculateBudgetPerformanceInStore_def arrayMap_def budgetCallback_def
  arrayFilter_def arraySum_def readTransactions_def readArray_def readTransaction_def
  readObject_def cellAt_def allocate_def spreadAndSet_def objectEntries_def isArrayIndex_def
  isDigit_def numberOrUndefined_def Let_def transaction_def budgetObject_def budget_def
  sumAmounts_def now0_def date_defs

lemma ledger_run:
  "calculateBudgetPerformanceInStore now0 now0 ledger 3 6 Month =
     Some (ledger @
       [ArrayCell [0],
        ObjectCell [(''category'', StringValue ''Food''), (''budgetAmount'', NumberValue 100),
                    (''spentAmount'', NumberValue 50), (''period'', StringValue ''month''),
                    (''status'', StringValue ''under''), (''percentUsed'', NumberValue 50)],
        ArrayCell [1],
        ObjectCell [(''category'', StringValue ''Housing''), (''budgetAmount'', NumberValue 100),
                    (''spentAmount'', NumberValue 90), (''period'', StringValue ''month''),
                    (''note'', StringValue ''rent''),
                    (''status'', StringValue ''ontrack''), (''percentUsed'', NumberValue 90)],
        ArrayCell [8, 10]], 11)"
  by (simp add: ledger_def store_defs)

text \<open>
  The two arrays of \<open>ledger\<close>, evaluated in February 2024: the store is extended by five
  cells, and the results at 8 and 10 are the budgets at 4 and 5 with the three properties
  set; the result for the second budget keeps its \<open>note\<close>.
\<close>

theorem budget_results_in_store_witness:
  "wellFormed ledger 3 6 \<and>
   calculateBudgetPerformanceInStore now0 now0 ledger 3 6 Month =
     Some (ledger @
       [ArrayCell [0],
        ObjectCell [(''category'', StringValue ''Food''), (''budgetAmount'', NumberValue 100),
                    (''spentAmount'', NumberValue 50), (''period'', StringValue ''month''),
                    (''status'', StringValue ''under''), (''percentUsed'', NumberValue 50)],
        ArrayCell [1],
        ObjectCell [(''category'', StringValue ''Housing''), (''budgetAmount'', NumberValue 100),
                    (''spentAmount'', NumberValue 90), (''period'', StringValue ''month''),
                    (''note'', StringValue ''rent''),
                    (''status'', StringValue ''ontrack''), (''percentUsed'', NumberValue 90)],
        ArrayCell [8, 10]], 11) \<and>
   list_all2
     (spreadOf ledger (ledger @
       [ArrayCell [0],
        ObjectCell [(''category'', StringValue ''Food''), (''budgetAmount'', NumberValue 100),
                    (''spentAmount'', NumberValue 50), (''period'', StringValue ''month''),
                    (''status'', StringValue ''under''), (''percentUsed'', NumberValue 50)],
        ArrayCell [1],
        ObjectCell [(''category'', StringValue ''Housing''), (''budgetAmount'', NumberValue 100),
                    (''spentAmount'', NumberValue 90), (''period'', StringValue ''month''),
                    (''note'', StringValue ''rent''),
                    (''status'', StringValue ''ontrack''), (''percentUsed'', NumberValue 90)],
        ArrayCell [8, 10]]))
     [4, 5] [8, 10]"
proof -
  have wf: "wellFormed ledger 3 6"
    by (simp add: ledger_def wellFormed_def store_defs)
  have bs: "readArray ledger 6 = Some [4, 5]"
    by (simp add: ledger_def readArray_def cellAt_def)
  from budget_results_in_store [of now0 now0 ledger 3 6 Month] wf
  obtain h' r bs rs where
    "calculateBudgetPerformanceInStore now0 now0 ledger 3 6 Month = Some (h', r)"
    "readArray ledger 6 = Some bs" "readArray h' r = Some rs"
    "list_all2 (spreadOf ledger h') bs rs"
    by blast
  then show ?thesis
    using wf bs unfolding ledger_run
    by (auto simp: readArray_def cellAt_def nth_append ledger_def)
qed

text \<open>
  C9, as stated, does not hold: \<open>spentAmount\<close> is not the only property of a budget that a
  result can change.  A budget that carries \<open>status\<close> and \<open>percentUsed\<close>, as every result
  of an earlier call does, gets both overwritten: the budget at address 2 is \<open>over\<close> at
  120 percent, its result is \<open>under\<close> at 50 percent.
\<close>

theorem budget_results_overwrite_counterexample:
  "wellFormed reevaluated 1 3 \<and>
   readObject reevaluated 2 =
     Some [(''category'', StringValue ''Food''), (''budgetAmount'', NumberValue 100),
           (''spentAmount'', NumberValue 120), (''period'', StringValue ''month''),
           (''status'', StringValue ''over''), (''percentUsed'', NumberValue 120)] \<and>
   calculateBudgetPerformanceInStore now0 now0 reevaluated 1 3 Month =
     Some (reevaluated @
       [ArrayCell [0],
        ObjectCell [(''category'', StringValue ''Food''), (''budgetAmount'', NumberValue 100),
                    (''spentAmount'', NumberValue 50), (''period'', StringValue ''month''),
                    (''status'', StringValue ''under''), (''percentUsed'', NumberValue 50)],
        ArrayCell [5]], 6)"
  by (simp add: reevaluated_def wellFormed_def store_defs)

text \<open>
  The two models of \<open>calculateBudgetPerformance\<close> agree: on a store that holds the
  transactions and the typed budgets of the first model, the second model returns objects
  that hold the results of the first.
\<close>

lemma budgetCallback_budgetResult:
  assumes xts: "readTransactions h transactions = Some xts"
    and b: "readObject h b = Some (budgetObject bd)"
  shows "\<exists>kept. budgetCallback periodInfo transactions h b =
     Some (h @ [ArrayCell kept,
                ObjectCell (performanceObject (budgetResult (map snd xts) periodInfo bd))],
           Suc (length h))"
proof -
  let ?pred = "\<lambda>t. Transaction.category t = BudgetData.category bd \<and>
                  type t = Expense \<and>
                  start (PeriodInfo.current periodInfo) \<le> date t \<and>
                  date t \<le> end' (PeriodInfo.current periodInfo)"
  let ?P = "\<lambda>(x, t). ?pred t"
  let ?kept = "map fst (filter ?P xts)"
  have f: "arrayFilter h transactions
             (\<lambda>t. Some (StringValue (Transaction.category t)) = map_of (budgetObject bd) ''category'' \<and>
                  type t = Expense \<and>
                  start (PeriodInfo.current periodInfo) \<le> date t \<and>
                  date t \<le> end' (PeriodInfo.current periodInfo)) =
      Some (h @ [ArrayCell ?kept], length h)"
    by (simp add: arrayFilter_def xts allocate_def budgetObject_def)
  have "map snd (filter ?P xts) = filter ?pred (map snd xts)"
    by (induction xts) auto
  then have s: "arraySum (h @ [ArrayCell ?kept]) (length h) =
      Some (sumAmounts (filter ?pred (map snd xts)))"
    using readTransactions_filtered [OF xts, of ?P] by (simp add: arraySum_def)
  have n: "numberOrUndefined (map_of (budgetObject bd) ''budgetAmount'') = Some (Some (budgetAmount bd))"
    by (simp add: numberOrUndefined_def budgetObject_def)
  have e: "objectEntries (budgetObject bd) = budgetObject bd"
    by (simp add: objectEntries_def budgetObject_def isArrayIndex_def isDigit_def)
  have "budgetCallback periodInfo transactions h b =
     Some (h @ [ArrayCell ?kept,
                ObjectCell (performanceObject (budgetResult (map snd xts) periodInfo bd))],
           Suc (length h))"
    unfolding budgetCallback_def b option.case f prod.case s n
    by (simp add: Let_def allocate_def spreadAndSet_def e budgetResult_def performanceObject_def)
      (simp add: budgetObject_def)
  then show ?thesis
    by (rule exI)
qed

lemma mapElements_budgetResult:
  assumes xts: "readTransactions h0 transactions = Some xts"
  shows "extends h0 h \<Longrightarrow> map (readObject h0) bs = map (\<lambda>bd. Some (budgetObject bd)) bds \<Longrightarrow>
     \<exists>h' rs. mapElements (budgetCallback periodInfo transactions) h bs = Some (h', rs) \<and>
       extends h h' \<and>
       map (readObject h') rs =
         map (\<lambda>bd. Some (performanceObject (budgetResult (map snd xts) periodInfo bd))) bds"
proof (induction bs arbitrary: h bds)
  case Nil
  then show ?case by (simp add: extends_refl)
next
  case (Cons b bs)
  from Cons.prems(2) obtain bd bds' where bds: "bds = bd # bds'"
    and b: "readObject h0 b = Some (budgetObject bd)"
    and rest: "map (readObject h0) bs = map (\<lambda>bd. Some (budgetObject bd)) bds'"
    by (cases bds) auto
  have b': "readObject h b = Some (budgetObject bd)"
    using Cons.prems(1) b by (rule extends_readObject)
  have xts': "readTransactions h transactions = Some xts"
    using Cons.prems(1) xts by (rule extends_readTransactions)
  let ?p = "performanceObject (budgetResult (map snd xts) periodInfo bd)"
  from budgetCallback_budgetResult [OF xts' b'] obtain kept where
    c: "budgetCallback periodInfo transactions h b =
          Some (h @ [ArrayCell kept, ObjectCell ?p], Suc (length h))"
    by blast
  let ?h1 = "h @ [ArrayCell kept, ObjectCell ?p]"
  have e1: "extends h ?h1"
    by (rule extends_append)
  have e01: "extends h0 ?h1"
    using Cons.prems(1) e1 by (rule extends_trans)
  from Cons.IH [OF e01 rest] obtain h2 rs where
    m: "mapElements (budgetCallback periodInfo transactions) ?h1 bs = Some (h2, rs)"
    and e12: "extends ?h1 h2"
    and rel: "map (readObject h2) rs =
         map (\<lambda>bd. Some (performanceObject (budgetResult (map snd xts) periodInfo bd))) bds'"
    by blast
  have "readObject ?h1 (Suc (length h)) = Some ?p"
    by (simp add: readObject_def cellAt_def nth_append)
  with e12 have "readObject h2 (Suc (length h)) = Some ?p"
    by (rule extends_readObject)
  with rel have "map (readObject h2) (Suc (length h) # rs) =
         map (\<lambda>bd. Some (performanceObject (budgetResult (map snd xts) periodInfo bd))) bds"
    by (simp add: bds)
  moreover have "mapElements (budgetCallback periodInfo transactions) h (b # bs) =
      Some (h2, Suc (length h) # rs)"
    using c m by simp
  moreover have "extends h h2"
    using e1 e12 by (rule extends_trans)
  ultimately show ?case
    by blast
qed

lemma store_model_agrees:
  assumes xts: "readTransactions h transactions = Some xts"
    and bs: "readArray h budgets = Some bs"
    and bds: "map (readObject h) bs = map (\<lambda>bd. Some (budgetObject bd)) bds"
  shows "\<exists>h' r rs.
     calculateBudgetPerformanceInStore now now' h transactions budgets period' = Some (h', r) \<and>
     readArray h' r = Some rs \<and>
     map (readObject h') rs =
       map (\<lambda>p. Some (performanceObject p))
         (calculateBudgetPerformance now now' (map snd xts) bds period')"
proof -
  let ?f = "budgetCallback (getPeriodInfo now now' period') transactions"
  from mapElements_budgetResult [OF xts extends_refl bds] obtain h1 rs where
    m: "mapElements ?f h bs = Some (h1, rs)"
    and rel: "map (readObject h1) rs =
         map (\<lambda>bd. Some (performanceObject
           (budgetResult (map snd xts) (getPeriodInfo now now' period') bd))) bds"
    by blast
  let ?h' = "h1 @ [ArrayCell rs]"
  have run: "calculateBudgetPerformanceInStore now now' h transactions budgets period' =
      Some (?h', length h1)"
    by (simp add: calculateBudgetPerformanceInStore_def arrayMap_def allocate_def bs m)
  have e': "extends h1 ?h'"
    by (rule extends_append)
  have "map (readObject ?h') rs = map (readObject h1) rs"
  proof (rule map_cong [OF refl])
    fix y
    assume "y \<in> set rs"
    then have "readObject h1 y \<in> set (map (readObject h1) rs)"
      by simp
    then obtain p where "readObject h1 y = Some p"
      unfolding rel by auto
    then show "readObject ?h' y = readObject h1 y"
      using extends_readObject [OF e'] by simp
  qed
  with rel have "map (readObject ?h') rs =
       map (\<lambda>p. Some (performanceObject p))
         (calculateBudgetPerformance now now' (map snd xts) bds period')"
    by (simp add: calculateBudgetPerformance_def comp_def)
  moreover have "readArray ?h' (length h1) = Some rs"
    by (simp add: readArray_def cellAt_def)
  ultimately show ?thesis
    using run by blast
qed

section \<open>Insights\<close>

text \<open>
  C6.  The two savings-rate rules exclude each other: the low-savings warning is emitted
  exactly when \<open>savingsRate < 10\<close>, the positive-savings message exactly when
  \<open>savingsRate > 20\<close>, never both, and neither when \<open>10 \<le> savingsRate \<le> 20\<close>.
\<close>

theorem savings_rate_insights:
  "(LowSavingsRate \<in> set (generateSpendingInsights summary bp trends) \<longleftrightarrow>
      savingsRate summary < 10)
   \<and> (ExcellentSavingsRate \<in> set (generateSpendingInsights summary bp trends) \<longleftrightarrow>
      savingsRate summary > 20)
   \<and> \<not> (LowSavingsRate \<in> set (generateSpendingInsights summary bp trends) \<and>
          ExcellentSavingsRate \<in> set (generateSpendingInsights summary bp trends))
   \<and> (10 \<le> savingsRate summary \<and> savingsRate summary \<le> 20 \<longrightarrow>
        LowSavingsRate \<notin> set (generateSpendingInsights summary bp trends) \<and>
        ExcellentSavingsRate \<notin> set (generateSpendingInsights summary bp trends))"
  by (auto simp: generateSpendingInsights_def Let_def split: list.splits if_splits)

theorem savings_rate_insights_witness:
  "ExcellentSavingsRate \<in> set (generateSpendingInsights (summaryWithRate 50) [] steadyTrends)
   \<and> LowSavingsRate \<in> set (generateSpendingInsights (summaryWithRate 5) [] steadyTrends)
   \<and> LowSavingsRate \<notin> set (generateSpendingInsights (summaryWithRate 15) [] steadyTrends)
   \<and> ExcellentSavingsRate \<notin> set (generateSpendingInsights (summaryWithRate 15) [] steadyTrends)"
  using savings_rate_insights [of "summaryWithRate 50" "[]" steadyTrends]
    savings_rate_insights [of "summaryWithRate 5" "[]" steadyTrends]
    savings_rate_insights [of "summaryWithRate 15" "[]" steadyTrends]
  by (simp add: summaryWithRate_def)

text \<open>
  C10.  \<open>generateSpendingInsights\<close> returns at most 4 insights, in the order of the rules
  (savings rate, over budget, trend, top category) with at most one insight per rule; the
  spending-increase and the spending-decrease message never appear together; and the
  top-category message appears exactly when \<open>topCategories\<close> is not empty and the
  percentage of its first entry exceeds 30.
\<close>

theorem insights_order:
  "length (generateSpendingInsights summary bp trends) \<le> 4
   \<and> sorted_wrt (<) (map insightRule (generateSpendingInsights summary bp trends))
   \<and> \<not> ((\<exists>x. SpendingIncreased x \<in> set (generateSpendingInsights summary bp trends)) \<and>
          (\<exists>y. SpendingReduced y \<in> set (generateSpendingInsights summary bp trends)))
   \<and> ((\<exists>c x. TopCategory c x \<in> set (generateSpendingInsights summary bp trends)) \<longleftrightarrow>
        (case topCategories summary of [] \<Rightarrow> False | e # _ \<Rightarrow> jsGreater (percentage e) 30))"
  by (auto simp: generateSpendingInsights_def Let_def split: list.splits if_splits)

theorem insights_order_witness:
  "generateSpendingInsights fullSummary
     (calculateBudgetPerformance now0 now0 boundarySpending boundaryBudgets Month) risingTrends =
     [LowSavingsRate, OverBudget 1 [''Utilities''], SpendingIncreased 20,
      TopCategory ''Food'' (Number 60)]
   \<and> length (generateSpendingInsights fullSummary
     (calculateBudgetPerformance now0 now0 boundarySpending boundaryBudgets Month) risingTrends) \<le> 4
   \<and> map insightRule (generateSpendingInsights fullSummary
     (calculateBudgetPerformance now0 now0 boundarySpending boundaryBudgets Month) risingTrends) =
     [1, 2, 3, 4]"
proof -
  let ?bp = "calculateBudgetPerformance now0 now0 boundarySpending boundaryBudgets Month"
  have over: "filter (\<lambda>b. status b = Over) ?bp = [?bp ! 3]" and len: "length ?bp = 5"
    and cat: "BudgetData.category (?bp ! 3) = ''Utilities''"
    by (simp_all add: calculateBudgetPerformance_def budgetResult_def Let_def boundarySpending_def
        boundaryBudgets_def budget_def transaction_def now0_def sumAmounts_def date_defs)
  have run: "generateSpendingInsights fullSummary ?bp risingTrends =
      [LowSavingsRate, OverBudget 1 [''Utilities''], SpendingIncreased 20,
      TopCategory ''Food'' (Number 60)]"
    by (simp add: generateSpendingInsights_def Let_def over cat fullSummary_def risingTrends_def)
  from insights_order [of fullSummary ?bp risingTrends] run show ?thesis
    by simp
qed

section \<open>The period calendar\<close>

lemma daysInMonth_pos: "1 \<le> daysInMonth y m"
  by (simp add: daysInMonth_def)

lemma monthNumber_mono:
  assumes "validDate a" "validDate b" "a \<le> b"
  shows "monthNumber a \<le> monthNumber b"
proof -
  obtain y m d t where a: "a = (y, m, d, t)" by (cases a)
  obtain y' m' d' t' where b: "b = (y', m', d', t')" by (cases b)
  from assms show ?thesis
    unfolding a b monthNumber_def validDate_def getFullYear_def getMonth_def
    by auto
qed

lemma date_less_by_month:
  assumes "12 * y + m < 12 * y' + m'" "0 \<le> m" "m < 12" "0 \<le> m'" "m' < 12"
  shows "((y, m, d, t) :: Date) < (y', m', d', t')"
  using assms by auto

lemma month_range_ordered: "startOfMonth d \<le> endOfMonth d"
  using daysInMonth_pos [of "getFullYear d" "getMonth d"]
  by (auto simp: startOfMonth_def endOfMonth_def)

lemma quarter_range_ordered: "startOfQuarter d \<le> endOfQuarter d"
  by (auto simp: startOfQuarter_def endOfQuarter_def Let_def)

lemma year_range_ordered: "startOfYear d \<le> endOfYear d"
  by (auto simp: startOfYear_def endOfYear_def)

lemma previous_month_before:
  assumes "validDate now" "validDate now'" "now \<le> now'"
  shows "endOfMonth (subMonths now 1) < startOfMonth now'"
proof -
  have le: "monthNumber now \<le> monthNumber now'"
    using assms by (rule monthNumber_mono)
  obtain y m d t where a: "now = (y, m, d, t)" by (cases now)
  obtain y' m' d' t' where b: "now' = (y', m', d', t')" by (cases now')
  have m': "0 \<le> m'" "m' < 12"
    using assms(2) by (simp_all add: b validDate_def getMonth_def)
  have "12 * ((y * 12 + m - 1) div 12) + (y * 12 + m - 1) mod 12 < 12 * y' + m'"
    using le by (simp add: a b monthNumber_def getFullYear_def getMonth_def)
  then show ?thesis
    unfolding a b endOfMonth_def startOfMonth_def subMonths_def Let_def getFullYear_def
      getMonth_def fst_conv snd_conv
    using m' by (intro date_less_by_month) simp_all
qed

lemma previous_quarter_before:
  assumes "validDate now" "validDate now'" "now \<le> now'"
  shows "endOfQuarter (subMonths now 3) < startOfQuarter now'"
proof -
  have le: "monthNumber now \<le> monthNumber now'"
    using assms by (rule monthNumber_mono)
  obtain y m d t where a: "now = (y, m, d, t)" by (cases now)
  obtain y' m' d' t' where b: "now' = (y', m', d', t')" by (cases now')
  have m': "0 \<le> m'" "m' < 12" and m: "0 \<le> m" "m < 12"
    using assms(1,2) by (simp_all add: a b validDate_def getMonth_def)
  define k where "k = y * 12 + m - 3"
  define M where "M = 12 * y' + m'"
  have k_le: "k + 3 \<le> M"
    using le by (simp add: a b monthNumber_def getFullYear_def getMonth_def k_def M_def)
  have split: "12 * (k div 12) + k mod 12 = k"
    by simp
  have "k mod 12 mod 3 = k mod 3"
    by (simp add: mod_mod_cancel)
  moreover have "m' mod 3 = M mod 3"
    unfolding M_def by presburger
  moreover have "k - k mod 3 + 2 < M - M mod 3"
    using k_le by presburger
  ultimately have "12 * (k div 12) + (k mod 12 - k mod 12 mod 3 + 2) < 12 * y' + (m' - m' mod 3)"
    using split unfolding M_def by linarith
  moreover have "0 \<le> k mod 12 - k mod 12 mod 3 + 2" "k mod 12 - k mod 12 mod 3 + 2 < 12"
    by presburger+
  moreover have "0 \<le> m' - m' mod 3" "m' - m' mod 3 < 12"
    using m' by presburger+
  ultimately show ?thesis
    unfolding a b endOfQuarter_def startOfQuarter_def subMonths_def Let_def getFullYear_def
      getMonth_def fst_conv snd_conv k_def [symmetric]
    by (intro date_less_by_month)
qed

lemma previous_year_before:
  assumes "now \<le> now'" "100 < getFullYear now"
  shows "endOfYear (newDate (getFullYear now - 1) 0 1) < startOfYear now'"
proof -
  obtain y m d t where a: "now = (y, m, d, t)" by (cases now)
  obtain y' m' d' t' where b: "now' = (y', m', d', t')" by (cases now')
  from assms show ?thesis
    unfolding a b by (auto simp: endOfYear_def startOfYear_def newDate_def getFullYear_def)
qed

text \<open>
  C7.  For every unit and every reading of the wall clock (a civil date and time that exists,
  after the year 100; the clock not running backwards between the two readings that
  \<open>getPeriodInfo\<close> takes), the previous range ends strictly before the current range
  starts, and both ranges run from their start to their end: the two never overlap.  When
  \<open>now\<close> is in January, the previous month is December of the year before.
\<close>

theorem periods_do_not_overlap:
  assumes "validDate now" and "validDate now'" and "now \<le> now'" and "100 < getFullYear now"
  shows "start (PeriodInfo.previous (getPeriodInfo now now' p))
           \<le> end' (PeriodInfo.previous (getPeriodInfo now now' p))
       \<and> end' (PeriodInfo.previous (getPeriodInfo now now' p))
           < start (PeriodInfo.current (getPeriodInfo now now' p))
       \<and> start (PeriodInfo.current (getPeriodInfo now now' p))
           \<le> end' (PeriodInfo.current (getPeriodInfo now now' p))
       \<and> (p = Month \<and> getMonth now = 0 \<longrightarrow>
            PeriodInfo.previous (getPeriodInfo now now' p) =
              \<lparr>start = (getFullYear now - 1, 11, 1, 0),
               end' = (getFullYear now - 1, 11, 31, 86399999)\<rparr>)"
proof (cases p)
  case Month
  have "getMonth now = 0 \<Longrightarrow> PeriodInfo.previous (getPeriodInfo now now' Month) =
      \<lparr>start = (getFullYear now - 1, 11, 1, 0), end' = (getFullYear now - 1, 11, 31, 86399999)\<rparr>"
  proof -
    assume jan: "getMonth now = 0"
    have "(getFullYear now * 12 - 1) div 12 = getFullYear now - 1"
      and "(getFullYear now * 12 - 1) mod 12 = 11"
      by presburger+
    with jan show ?thesis
      by (simp add: Let_def startOfMonth_def endOfMonth_def subMonths_def daysInMonth_def
          getFullYear_def [of "(a, b)" for a b] getMonth_def [of "(a, b)" for a b])
  qed
  with Month show ?thesis
    using previous_month_before [OF assms(1-3)] month_range_ordered
    by (simp add: Let_def getCurrentMonth_def)
next
  case Quarter
  then show ?thesis
    using previous_quarter_before [OF assms(1-3)] quarter_range_ordered
    by (simp add: Let_def getCurrentQuarter_def)
next
  case Year
  then show ?thesis
    using previous_year_before [OF assms(3,4)] year_range_ordered
    by (simp add: Let_def getCurrentYear_def)
qed

theorem periods_do_not_overlap_witness:
  "validDate january31 \<and> 100 < getFullYear january31
   \<and> end' (PeriodInfo.previous (getPeriodInfo january31 january31 Month))
       < start (PeriodInfo.current (getPeriodInfo january31 january31 Month))
   \<and> PeriodInfo.previous (getPeriodInfo january31 january31 Month) =
       \<lparr>start = (2023, 11, 1, 0), end' = (2023, 11, 31, 86399999)\<rparr>
   \<and> end' (PeriodInfo.previous (getPeriodInfo january31 january31 Quarter))
       < start (PeriodInfo.current (getPeriodInfo january31 january31 Quarter))
   \<and> end' (PeriodInfo.previous (getPeriodInfo january31 january31 Year))
       < start (PeriodInfo.current (getPeriodInfo january31 january31 Year))"
proof -
  have v: "validDate january31"
    by (simp add: january31_def validDate_def getFullYear_def getMonth_def getDate_def
        getTimeOfDay_def daysInMonth_def)
  have y: "100 < getFullYear january31" and m: "getMonth january31 = 0"
    and y': "getFullYear january31 - 1 = 2023"
    by (simp_all add: january31_def getFullYear_def getMonth_def)
  note month = periods_do_not_overlap [OF v v order_refl y, of Month]
  have "PeriodInfo.previous (getPeriodInfo january31 january31 Month) =
       \<lparr>start = (2023, 11, 1, 0), end' = (2023, 11, 31, 86399999)\<rparr>"
    using month m y' by (simp del: getPeriodInfo.simps)
  moreover have "end' (PeriodInfo.previous (getPeriodInfo january31 january31 Month))
       < start (PeriodInfo.current (getPeriodInfo january31 january31 Month))"
    using month by blast
  moreover have "end' (PeriodInfo.previous (getPeriodInfo january31 january31 Quarter))
       < start (PeriodInfo.current (getPeriodInfo january31 january31 Quarter))"
    using periods_do_not_overlap [OF v v order_refl y, of Quarter] by blast
  moreover have "end' (PeriodInfo.previous (getPeriodInfo january31 january31 Year))
       < start (PeriodInfo.current (getPeriodInfo january31 january31 Year))"
    using periods_do_not_overlap [OF v v order_refl y, of Year] by blast
  ultimately show ?thesis
    using v y by blast
qed

section \<open>The category breakdown\<close>

lemma firstSeen_Nil [simp]: "firstSeen [] = []"
  by (simp add: firstSeen_def)

lemma firstSeen_snoc:
  "firstSeen (xs @ [x]) = (if x \<in> set (firstSeen xs) then firstSeen xs else firstSeen xs @ [x])"
  by (simp add: firstSeen_def)

lemma set_firstSeen [simp]: "set (firstSeen xs) = set xs"
  by (induction xs rule: rev_induct) (auto simp: firstSeen_snoc)

lemma distinct_firstSeen [simp]: "distinct (firstSeen xs)"
  by (induction xs rule: rev_induct) (auto simp: firstSeen_snoc)

lemma map_of_graph:
  "map_of (map (\<lambda>c. (c, g c)) cs) k = (if k \<in> set cs then Some (g k) else None)"
  by (induction cs) auto

lemma defineProp_graph_new:
  "k \<notin> set cs \<Longrightarrow> defineProp (map (\<lambda>c. (c, g c)) cs) k v = map (\<lambda>c. (c, g c)) cs @ [(k, v)]"
  by (induction cs) auto

lemma defineProp_graph_old:
  "k \<in> set cs \<Longrightarrow> distinct cs \<Longrightarrow>
   defineProp (map (\<lambda>c. (c, g c)) cs) k v = map (\<lambda>c. (c, if c = k then v else g c)) cs"
  by (induction cs) auto

lemma groupTotal_snoc:
  "groupTotal (ts @ [t]) c =
     groupTotal ts c + (if Transaction.category t = c then Transaction.amount t else 0)"
  by (simp add: groupTotal_def)

lemma groupTotal_unseen:
  "c \<notin> Transaction.category ` set ts \<Longrightarrow> groupTotal ts c = 0"
proof -
  assume "c \<notin> Transaction.category ` set ts"
  then have "filter (\<lambda>t. Transaction.category t = c) ts = []"
    by (auto simp: filter_empty_conv)
  then show ?thesis by (simp add: groupTotal_def)
qed

text \<open>A category name that the prototype does not know.\<close>

lemma addToCategory_plain:
  assumes "k \<noteq> ''__proto__''" and "k \<notin> set inheritedFunctions"
    and "Transaction.category t = k"
  shows "addToCategory (map (\<lambda>c. (c, Number (g c))) cs) t =
     defineProp (map (\<lambda>c. (c, Number (g c))) cs) k
       (Number ((if k \<in> set cs then g k else 0) + Transaction.amount t))"
  using assms
  by (simp add: addToCategory_def setProp_def getProp_def orZeroPlus_def map_of_graph)

lemma addToCategory_proto:
  "Transaction.category t = ''__proto__'' \<Longrightarrow> addToCategory acc t = acc"
  by (simp add: addToCategory_def setProp_def)

lemma categoryTotals_firstSeen:
  assumes "\<forall>t \<in> set ts. Transaction.category t \<noteq> ''__proto__'' \<and>
                        Transaction.category t \<notin> set inheritedFunctions"
  shows "categoryTotals ts =
     map (\<lambda>c. (c, Number (groupTotal ts c))) (firstSeen (map Transaction.category ts))"
  using assms
proof (induction ts rule: rev_induct)
  case Nil
  then show ?case by (simp add: categoryTotals_def)
next
  case (snoc t ts)
  let ?cs = "firstSeen (map Transaction.category ts)"
  let ?k = "Transaction.category t"
  have plain: "?k \<noteq> ''__proto__''" "?k \<notin> set inheritedFunctions"
    using snoc.prems by simp_all
  have IH: "categoryTotals ts = map (\<lambda>c. (c, Number (groupTotal ts c))) ?cs"
    using snoc by simp
  have step: "categoryTotals (ts @ [t]) =
      defineProp (map (\<lambda>c. (c, Number (groupTotal ts c))) ?cs) ?k
        (Number ((if ?k \<in> set ?cs then groupTotal ts ?k else 0) + Transaction.amount t))"
    using addToCategory_plain [OF plain refl, of "groupTotal ts" ?cs]
    by (simp add: categoryTotals_def IH [unfolded categoryTotals_def])
  show ?case
  proof (cases "?k \<in> set ?cs")
    case True
    then have "categoryTotals (ts @ [t]) =
        map (\<lambda>c. (c, if c = ?k then Number (groupTotal ts ?k + Transaction.amount t)
                     else Number (groupTotal ts c))) ?cs"
      unfolding step by (simp add: defineProp_graph_old)
    also have "\<dots> = map (\<lambda>c. (c, Number (groupTotal (ts @ [t]) c))) ?cs"
      by (auto simp: groupTotal_snoc)
    finally show ?thesis
      using True by (simp add: firstSeen_snoc)
  next
    case False
    then have unseen: "groupTotal ts ?k = 0"
      by (intro groupTotal_unseen) simp
    from False have "categoryTotals (ts @ [t]) =
        map (\<lambda>c. (c, Number (groupTotal ts c))) ?cs @ [(?k, Number (0 + Transaction.amount t))]"
      unfolding step by (simp add: defineProp_graph_new)
    also have "\<dots> = map (\<lambda>c. (c, Number (groupTotal (ts @ [t]) c))) (?cs @ [?k])"
      using False unseen by (auto simp: groupTotal_snoc)
    finally show ?thesis
      using False by (simp add: firstSeen_snoc)
  qed
qed

lemma foldl_addToCategory_proto:
  "foldl addToCategory acc ts =
   foldl addToCategory acc (filter (\<lambda>t. Transaction.category t \<noteq> ''__proto__'') ts)"
  by (induction ts arbitrary: acc) (simp_all add: addToCategory_proto)

lemma categoryTotals_grouped:
  assumes "plainCategories txs r"
  shows "categoryTotals (periodExpenses txs r) =
     map (\<lambda>c. (c, Number (groupTotal (groupedExpenses txs r) c))) (expenseCategories txs r)"
proof -
  have "categoryTotals (periodExpenses txs r) = categoryTotals (groupedExpenses txs r)"
    unfolding categoryTotals_def groupedExpenses_def by (rule foldl_addToCategory_proto)
  moreover have "\<forall>t \<in> set (groupedExpenses txs r). Transaction.category t \<noteq> ''__proto__'' \<and>
      Transaction.category t \<notin> set inheritedFunctions"
    using assms by (auto simp: plainCategories_def groupedExpenses_def list_all_iff)
  ultimately show ?thesis
    by (simp add: categoryTotals_firstSeen expenseCategories_def)
qed

lemma insertBy_groupShare:
  "insertBy byAmountDesc (groupShare tot ts x) (map (groupShare tot ts) ys) =
     map (groupShare tot ts) (insort_key (\<lambda>c. - groupTotal ts c) x ys)"
  by (induction ys) (simp_all add: byAmountDesc_def groupShare_def)

lemma sortBy_groupShare:
  "sortBy byAmountDesc (map (groupShare tot ts) cs) =
     map (groupShare tot ts) (rankedCategories ts cs)"
  by (induction cs) (simp_all add: sortBy_def rankedCategories_def insertBy_groupShare)

lemma insort_key_map:
  "insort_key f (h x) (map h xs) = map h (insort_key (\<lambda>y. f (h y)) x xs)"
  by (induction xs) simp_all

lemma sort_key_map: "sort_key f (map h xs) = map h (sort_key (\<lambda>y. f (h y)) xs)"
  by (induction xs) (simp_all add: insort_key_map)

lemma objectEntries_graph:
  "objectEntries (map (\<lambda>c. (c, g c)) cs) = map (\<lambda>c. (c, g c)) (entryOrder cs)"
  by (simp add: objectEntries_def entryOrder_def filter_map comp_def sort_key_map)

lemma entryOrder_no_index:
  "\<forall>c \<in> set cs. \<not> isArrayIndex c \<Longrightarrow> entryOrder cs = cs"
proof -
  assume a: "\<forall>c \<in> set cs. \<not> isArrayIndex c"
  then have "filter isArrayIndex cs = []" "filter (\<lambda>c. \<not> isArrayIndex c) cs = cs"
    by (auto simp: filter_empty_conv filter_id_conv)
  then show ?thesis by (simp add: entryOrder_def)
qed

lemma mset_entryOrder: "mset (entryOrder cs) = mset cs"
  by (simp add: entryOrder_def)

lemma topCategories_groupShares:
  assumes "plainCategories txs r"
  shows "topCategories (calculateFinancialSummary txs r) =
     take 5 (map (groupShare (totalExpenses (calculateFinancialSummary txs r))
                    (groupedExpenses txs r))
               (rankedCategories (groupedExpenses txs r) (entryOrder (expenseCategories txs r))))"
proof -
  let ?g = "groupTotal (groupedExpenses txs r)"
  let ?tot = "totalExpenses (calculateFinancialSummary txs r)"
  have "map (share ?tot) (map (\<lambda>c. (c, Number (?g c))) cs) =
        map (groupShare ?tot (groupedExpenses txs r)) cs" for cs
    by (simp add: share_def groupShare_def comp_def)
  then show ?thesis
    by (simp only: topCategories_unfold totalExpenses_unfold [symmetric]
        categoryTotals_grouped [OF assms] objectEntries_graph sortBy_groupShare)
qed

text \<open>
  C5, amended.  For every transaction list and range in which no in-range expense has a
  category named like a function that every object inherits (\<open>constructor\<close>, \<open>toString\<close>,
  ...), \<open>topCategories\<close> are the first five of the group shares sorted by amount, largest
  first: one share per category of the in-range expenses other than those of the category
  \<open>__proto__\<close>, which are left out of the breakdown (and stay in \<open>totalExpenses\<close>); the
  amount of a share is the sum of its group and its percentage is
  \<open>amount / totalExpenses \<times> 100\<close> when \<open>totalExpenses > 0\<close> and 0 otherwise; shares of
  equal amount keep the order in which \<open>Object.entries\<close> lists their categories, which is
  the order in which the categories are first encountered whenever no category name is an
  array index.
\<close>

theorem topCategories_grouped:
  assumes "plainCategories txs r"
  shows "topCategories (calculateFinancialSummary txs r) =
     take 5 (map (groupShare (totalExpenses (calculateFinancialSummary txs r))
                    (groupedExpenses txs r))
               (rankedCategories (groupedExpenses txs r) (entryOrder (expenseCategories txs r))))
   \<and> totalExpenses (calculateFinancialSummary txs r) =
       sum_list (map Transaction.amount (periodExpenses txs r))
   \<and> mset (rankedCategories (groupedExpenses txs r) (entryOrder (expenseCategories txs r))) =
       mset (expenseCategories txs r)
   \<and> sorted_wrt (\<lambda>a b. groupTotal (groupedExpenses txs r) a \<ge> groupTotal (groupedExpenses txs r) b)
         (rankedCategories (groupedExpenses txs r) (entryOrder (expenseCategories txs r)))
   \<and> (\<forall>x. filter (\<lambda>c. groupTotal (groupedExpenses txs r) c = x)
              (rankedCategories (groupedExpenses txs r) (entryOrder (expenseCategories txs r))) =
            filter (\<lambda>c. groupTotal (groupedExpenses txs r) c = x)
              (entryOrder (expenseCategories txs r)))
   \<and> ((\<forall>t \<in> set (periodExpenses txs r). \<not> isArrayIndex (Transaction.category t)) \<longrightarrow>
        entryOrder (expenseCategories txs r) = expenseCategories txs r)"
proof (intro conjI allI impI)
  let ?ge = "groupedExpenses txs r"
  let ?eo = "entryOrder (expenseCategories txs r)"
  let ?rs = "rankedCategories ?ge ?eo"
  show "topCategories (calculateFinancialSummary txs r) =
     take 5 (map (groupShare (totalExpenses (calculateFinancialSummary txs r)) ?ge) ?rs)"
    using assms by (rule topCategories_groupShares)
  show "totalExpenses (calculateFinancialSummary txs r) =
      sum_list (map Transaction.amount (periodExpenses txs r))"
    by (simp add: totalExpenses_unfold sumAmounts_sum_list)
  show "mset ?rs = mset (expenseCategories txs r)"
    by (simp add: rankedCategories_def mset_entryOrder)
  have "sorted (map (\<lambda>c. - groupTotal ?ge c) ?rs)"
    by (simp add: rankedCategories_def)
  then show "sorted_wrt (\<lambda>a b. groupTotal ?ge a \<ge> groupTotal ?ge b) ?rs"
    by (simp add: sorted_map)
  show "filter (\<lambda>c. groupTotal ?ge c = x) ?rs = filter (\<lambda>c. groupTotal ?ge c = x) ?eo" for x
    using sort_key_stable [of "\<lambda>c. - groupTotal ?ge c" "- x" ?eo]
    by (simp add: rankedCategories_def)
  show "entryOrder (expenseCategories txs r) = expenseCategories txs r"
    if "\<forall>t \<in> set (periodExpenses txs r). \<not> isArrayIndex (Transaction.category t)"
    using that
    by (intro entryOrder_no_index) (auto simp: expenseCategories_def groupedExpenses_def)
qed

lemmas sample_defs = january2024_def transaction_def periodExpenses_def groupedExpenses_def
  expenseCategories_def firstSeen_def groupShare_def rankedCategories_def groupTotal_def
  sumAmounts_def isArrayIndex_def isDigit_def plainCategories_def inheritedFunctions_def

lemmas run_defs = calculateFinancialSummary_def Let_def sample_defs addToCategory_def
  getProp_def setProp_def orZeroPlus_def objectEntries_def sortBy_def numericValue_def
  digitValue_def

text \<open>
  A month with six categories and an expense under \<open>__proto__\<close>: the total is 2000, the
  breakdown has the four categories with 200 in the order of their first expense, then the
  first of the two with 100, and nothing for \<open>__proto__\<close>.
\<close>

theorem topCategories_grouped_witness:
  "plainCategories tieSpending january2024
   \<and> list_all (\<lambda>t. \<not> isArrayIndex (Transaction.category t)) (periodExpenses tieSpending january2024)
   \<and> expenseCategories tieSpending january2024 =
       [''Food'', ''Housing'', ''Transportation'', ''Utilities'', ''Entertainment'', ''Health'']
   \<and> totalExpenses (calculateFinancialSummary tieSpending january2024) = 2000
   \<and> topCategories (calculateFinancialSummary tieSpending january2024) =
      [\<lparr>category = ''Food'', amount = Number 200, percentage = Number 10\<rparr>,
       \<lparr>category = ''Housing'', amount = Number 200, percentage = Number 10\<rparr>,
       \<lparr>category = ''Utilities'', amount = Number 200, percentage = Number 10\<rparr>,
       \<lparr>category = ''Health'', amount = Number 200, percentage = Number 10\<rparr>,
       \<lparr>category = ''Transportation'', amount = Number 100, percentage = Number 5\<rparr>]"
proof -
  let ?cats = "[''Food'', ''Housing'', ''Transportation'', ''Utilities'', ''Entertainment'', ''Health'']"
  have plain: "plainCategories tieSpending january2024"
    by (simp add: tieSpending_def sample_defs)
  have names: "list_all (\<lambda>t. \<not> isArrayIndex (Transaction.category t))
      (periodExpenses tieSpending january2024)"
    by (simp add: tieSpending_def sample_defs)
  have cats: "expenseCategories tieSpending january2024 = ?cats"
    by (simp add: tieSpending_def sample_defs)
  have total: "sum_list (map Transaction.amount (periodExpenses tieSpending january2024)) = 2000"
    by (simp add: tieSpending_def sample_defs)
  have ranked: "take 5 (map (groupShare 2000 (groupedExpenses tieSpending january2024))
        (rankedCategories (groupedExpenses tieSpending january2024) ?cats)) =
      [\<lparr>category = ''Food'', amount = Number 200, percentage = Number 10\<rparr>,
       \<lparr>category = ''Housing'', amount = Number 200, percentage = Number 10\<rparr>,
       \<lparr>category = ''Utilities'', amount = Number 200, percentage = Number 10\<rparr>,
       \<lparr>category = ''Health'', amount = Number 200, percentage = Number 10\<rparr>,
       \<lparr>category = ''Transportation'', amount = Number 100, percentage = Number 5\<rparr>]"
    by (simp add: tieSpending_def sample_defs)
  from names have "\<forall>t \<in> set (periodExpenses tieSpending january2024).
      \<not> isArrayIndex (Transaction.category t)"
    by (simp add: list_all_iff)
  with topCategories_grouped [OF plain] total
  have "totalExpenses (calculateFinancialSummary tieSpending january2024) = 2000"
    and "topCategories (calculateFinancialSummary tieSpending january2024) =
      take 5 (map (groupShare 2000 (groupedExpenses tieSpending january2024))
        (rankedCategories (groupedExpenses tieSpending january2024)
          (expenseCategories tieSpending january2024)))"
    by simp_all
  with plain names cats ranked show ?thesis
    by simp
qed

text \<open>
  C5, as stated, does not hold.  Ties are not always broken by the order in which the
  categories are first encountered: \<open>Object.entries\<close> lists the keys that are array
  indices first, in ascending numeric order, so with two expenses of 10 in the categories
  "2" and "1", in this order, \<open>topCategories\<close> lists "1" before "2".  And not every category
  gets the sum of its group: an expense of 10 under \<open>__proto__\<close> counts in \<open>totalExpenses\<close>
  and leaves \<open>topCategories\<close> empty, and two expenses of 300 and 200 under \<open>constructor\<close>
  give one entry whose amount is a string and whose percentage is \<open>NaN\<close>.
\<close>

theorem topCategories_tie_counterexample:
  "expenseCategories indexNamed january2024 = [''2'', ''1'']
   \<and> map CategoryShare.amount (topCategories (calculateFinancialSummary indexNamed january2024)) =
       [Number 10, Number 10]
   \<and> map CategoryShare.category (topCategories (calculateFinancialSummary indexNamed january2024)) =
       [''1'', ''2'']
   \<and> topCategories (calculateFinancialSummary indexNamed january2024) \<noteq>
       take 5 (map (groupShare 20 (groupedExpenses indexNamed january2024))
         (rankedCategories (groupedExpenses indexNamed january2024)
            (expenseCategories indexNamed january2024)))
   \<and> totalExpenses (calculateFinancialSummary protoNamed january2024) = 10
   \<and> topCategories (calculateFinancialSummary protoNamed january2024) = []
   \<and> topCategories (calculateFinancialSummary constructorNamed january2024) =
       [\<lparr>category = ''constructor'', amount = Text ''constructor'' [300, 200], percentage = NaN\<rparr>]"
  by (simp add: indexNamed_def protoNamed_def constructorNamed_def run_defs)

section \<open>Independence of the order of the transactions\<close>
















end
